theory Spec2Isabelle
  imports Complex_Main "HOL-Library.Sublist" "HOL-Library.Char_ord" "HOL-Library.List_Lexorder"
begin

section \<open>CSV header detection (statistics.go, containsFlightDataHeaders)\<close>

text \<open>
  Go strings are byte sequences and so are HOL strings. \<open>strings.ToLower\<close> is modelled on
  the ASCII letters, every other byte is left as it is; column names with letters outside
  ASCII are outside this model. \<open>strings.Contains\<close> is the contiguous-substring test.
\<close>

definition toLowerChar :: "char \<Rightarrow> char" where
  "toLowerChar c =
     (if 65 \<le> (of_char c :: nat) \<and> (of_char c :: nat) \<le> 90
      then char_of ((of_char c :: nat) + 32) else c)"

definition ToLower :: "string \<Rightarrow> string" where
  "ToLower s = map toLowerChar s"

fun Contains :: "string \<Rightarrow> string \<Rightarrow> bool" where
  "Contains [] substr = (substr = [])"
| "Contains (c # cs) substr = (prefix substr (c # cs) \<or> Contains cs substr)"

definition expectedHeaders :: "string list" where
  "expectedHeaders = [''Time'', ''Altitude'', ''Latitude'', ''Longitude'']"

text \<open>The inner loop over the expected headers; it leaves at the first hit (\<open>break\<close>).\<close>

fun matchesExpected :: "string \<Rightarrow> string list \<Rightarrow> bool" where
  "matchesExpected headerLower [] = False"
| "matchesExpected headerLower (expected # rest) =
     (if Contains headerLower (ToLower expected) then True
      else matchesExpected headerLower rest)"

text \<open>The outer loop over the columns of the row, threading \<open>foundCount\<close>.\<close>

fun countFound :: "string list \<Rightarrow> nat \<Rightarrow> nat" where
  "countFound [] foundCount = foundCount"
| "countFound (header # rest) foundCount =
     countFound rest
       (if matchesExpected (ToLower header) expectedHeaders then foundCount + 1
        else foundCount)"

definition containsFlightDataHeaders :: "string list \<Rightarrow> bool" where
  "containsFlightDataHeaders record = (3 \<le> countFound record 0)"

text \<open>
  The rule as the specification words it: the keywords that appear in some column name are
  counted, each keyword once.
\<close>

definition keywordAppears :: "string list \<Rightarrow> string \<Rightarrow> bool" where
  "keywordAppears record keyword =
     list_ex (\<lambda>header. Contains (ToLower header) (ToLower keyword)) record"

definition specHeaderRule :: "string list \<Rightarrow> bool" where
  "specHeaderRule record = (3 \<le> length (filter (keywordAppears record) expectedHeaders))"

text \<open>What the loop counts: the columns whose name contains one of the keywords.\<close>

definition columnMatches :: "string \<Rightarrow> bool" where
  "columnMatches header =
     list_ex (\<lambda>keyword. Contains (ToLower header) (ToLower keyword)) expectedHeaders"

section \<open>Descriptive statistics (statistics.go)\<close>

text \<open>
  Go's \<open>float64\<close> values are modelled as real numbers: the comparisons and the arithmetic
  are those of the source, their rounding is not modelled. Slice indices are \<open>int\<close> as in
  the source; every access below is in range whenever \<open>0 \<le> low\<close> and
  \<open>high < len(arr)\<close>, which is how \<open>calculateDataStatistics\<close> calls \<open>quickSort\<close>.
\<close>

record PositionPoint =
  Timestamp :: int
  TimestampSeconds :: real
  Altitude :: real
  Latitude :: real
  Longitude :: real
  IndicatedAltitude :: real
  PressureAltitude :: real
  Airspeed :: real

record DataStatistics =
  Count :: nat
  Mean :: real
  Variance :: real
  StdDev :: real
  Min_val :: real
  Max_val :: real
  Range :: real
  Median :: real

record FlightStatistics =
  AirspeedStats :: "DataStatistics option"
  IndicatedAltitudeStats :: "DataStatistics option"
  AltitudeStats :: "DataStatistics option"
  PressureAltitudeStats :: "DataStatistics option"

text \<open>\<open>arr[i], arr[j] = arr[j], arr[i]\<close>\<close>

definition swap :: "real list \<Rightarrow> int \<Rightarrow> int \<Rightarrow> real list" where
  "swap arr i j = arr[nat i := arr ! nat j, nat j := arr ! nat i]"

text \<open>The \<open>for j := low; j < high; j++\<close> loop of \<open>partition\<close>, threading \<open>arr\<close> and \<open>i\<close>.\<close>

function partition_loop :: "real list \<Rightarrow> real \<Rightarrow> int \<Rightarrow> int \<Rightarrow> int \<Rightarrow> real list \<times> int" where
  "partition_loop arr pivot i j high =
     (if j < high then
        (if arr ! nat j < pivot then partition_loop (swap arr (i + 1) j) pivot (i + 1) (j + 1) high
         else partition_loop arr pivot i (j + 1) high)
      else (arr, i))"
  by pat_completeness auto

termination
  by (relation "measure (\<lambda>(arr, pivot, i, j, high). nat (high - j))") auto

declare partition_loop.simps [simp del]

definition partition_qs :: "real list \<Rightarrow> int \<Rightarrow> int \<Rightarrow> real list \<times> int" where
  "partition_qs arr low high =
     (let pivot = arr ! nat high in
      case partition_loop arr pivot (low - 1) low high of
        (arr', i) \<Rightarrow> (swap arr' (i + 1) high, i + 1))"

lemma partition_loop_bounds:
  "j \<le> high \<Longrightarrow> i \<le> snd (partition_loop arr pivot i j high)
     \<and> snd (partition_loop arr pivot i j high) \<le> i + (high - j)"
proof (induction arr pivot i j high rule: partition_loop.induct)
  case (1 arr pivot i j high)
  show ?case
  proof (cases "j < high")
    case False
    with "1.prems" show ?thesis by (simp add: partition_loop.simps)
  next
    case True
    show ?thesis
    proof (cases "arr ! nat j < pivot")
      case True
      with \<open>j < high\<close> "1.IH"(1) show ?thesis
        by (subst (1 2) partition_loop.simps) force
    next
      case False
      with \<open>j < high\<close> "1.IH"(2) show ?thesis
        by (subst (1 2) partition_loop.simps) force
    qed
  qed
qed

lemma partition_qs_bounds:
  assumes "low \<le> high" and "partition_qs arr low high = (arr1, pidx)"
  shows "low \<le> pidx \<and> pidx \<le> high"
proof -
  from assms(2) have "pidx = snd (partition_loop arr (arr ! nat high) (low - 1) low high) + 1"
    by (auto simp: partition_qs_def Let_def split: prod.splits)
  with partition_loop_bounds [OF assms(1), of "low - 1" arr "arr ! nat high"] show ?thesis
    by simp
qed

function quickSort :: "real list \<Rightarrow> int \<Rightarrow> int \<Rightarrow> real list" where
  "quickSort arr low high =
     (if low < high then
        (case partition_qs arr low high of
           (arr1, pidx) \<Rightarrow> quickSort (quickSort arr1 low (pidx - 1)) (pidx + 1) high)
      else arr)"
  by pat_completeness auto

termination
proof (relation "measure (\<lambda>(arr, low, high). nat (high - low))", goal_cases)
  case 1
  show ?case by simp
next
  case (2 arr low high x1 x2)
  then have "low \<le> x2 \<and> x2 \<le> high"
    using partition_qs_bounds [of low high arr x1 x2] by simp
  with 2 show ?case by simp
next
  case (3 arr low high x1 x2)
  then have "low \<le> x2 \<and> x2 \<le> high"
    using partition_qs_bounds [of low high arr x1 x2] by simp
  with 3 show ?case by simp
qed

declare quickSort.simps [simp del]

definition calculateDataStatistics :: "real list \<Rightarrow> DataStatistics option" where
  "calculateDataStatistics data =
     (if length data = 0 then None
      else
        let sortedData = quickSort data 0 (int (length data) - 1);
            count = length data;
            sum = foldl (\<lambda>sum v. sum + v) 0 data;
            min = sortedData ! 0;
            max = sortedData ! (length sortedData - 1);
            mean = sum / real count;
            sumSquaredDiff = foldl (\<lambda>acc v. acc + (v - mean) * (v - mean)) 0 data;
            variance = sumSquaredDiff / real count;
            stdDev = sqrt variance;
            median = (if count mod 2 = 0
                      then (sortedData ! (count div 2 - 1) + sortedData ! (count div 2)) / 2
                      else sortedData ! (count div 2))
        in Some \<lparr>Count = count, Mean = mean, Variance = variance, StdDev = stdDev,
                  Min_val = min, Max_val = max, Range = max - min, Median = median\<rparr>)"

text \<open>
  The loop of \<open>CalculateFlightStatistics\<close> over the points of one aircraft: the four
  slices \<open>airspeeds\<close>, \<open>indicatedAltitudes\<close>, \<open>altitudes\<close>, \<open>pressureAltitudes\<close> grow by
  \<open>append\<close>.
\<close>

fun extractSeries ::
  "PositionPoint list \<Rightarrow> real list \<times> real list \<times> real list \<times> real list
     \<Rightarrow> real list \<times> real list \<times> real list \<times> real list" where
  "extractSeries [] series = series"
| "extractSeries (point # rest) (airspeeds, indicatedAltitudes, altitudes, pressureAltitudes) =
     extractSeries rest
       (if Airspeed point > 0 then airspeeds @ [Airspeed point] else airspeeds,
        if IndicatedAltitude point \<noteq> 0 then indicatedAltitudes @ [IndicatedAltitude point]
        else indicatedAltitudes,
        if Altitude point \<noteq> 0 then altitudes @ [Altitude point] else altitudes,
        if PressureAltitude point \<noteq> 0 then pressureAltitudes @ [PressureAltitude point]
        else pressureAltitudes)"

definition aircraftStatistics :: "PositionPoint list \<Rightarrow> FlightStatistics" where
  "aircraftStatistics positionData =
     (case extractSeries positionData ([], [], [], []) of
        (airspeeds, indicatedAltitudes, altitudes, pressureAltitudes) \<Rightarrow>
          \<lparr>AirspeedStats =
             (if length airspeeds > 0 then calculateDataStatistics airspeeds else None),
           IndicatedAltitudeStats =
             (if length indicatedAltitudes > 0 then calculateDataStatistics indicatedAltitudes
              else None),
           AltitudeStats =
             (if length altitudes > 0 then calculateDataStatistics altitudes else None),
           PressureAltitudeStats =
             (if length pressureAltitudes > 0 then calculateDataStatistics pressureAltitudes
              else None)\<rparr>)"

text \<open>
  \<open>CalculateFlightStatistics\<close> reads the \<open>PositionData\<close> map of its argument only; the map
  from aircraft label to points is the argument here. An aircraft without points gets no
  entry (\<open>continue\<close>).
\<close>

definition CalculateFlightStatistics ::
  "(string \<rightharpoonup> PositionPoint list) \<Rightarrow> (string \<rightharpoonup> FlightStatistics)" where
  "CalculateFlightStatistics positionData =
     (\<lambda>aircraftLabel.
        case positionData aircraftLabel of
          None \<Rightarrow> None
        | Some points \<Rightarrow>
            if length points = 0 then None else Some (aircraftStatistics points))"

section \<open>The canonical store (data/structure.sql, ensureMarkersTable)\<close>

text \<open>
  A value of an SQLite column. A row keeps the columns the statements below test or set as
  fields of their own and carries the remaining columns of its table, in the order of the
  DDL, as one list: every statement modelled here reads and writes them together.
  The columns \<open>flight.creation_time\<close> and \<open>markers.created_at\<close> are filled by the engine's
  defaults and are not modelled. 64-bit timestamps and row ids are \<open>int\<close>: no statement
  below comes near the wrap-around. The four \<open>datetime\<close> columns of a flight are kept as
  the text that was stored; the database driver may hand such a column to a Go string in
  another spelling of the same instant, so no statement below is about the value of a
  \<open>datetime\<close> column in a copied flight row.
\<close>

datatype sqlval = SqlNull | SqlInt int | SqlReal real | SqlText string

record flight_row =
  f_id :: int
  f_title :: "string option"
  f_flight_number :: "string option"
  f_start_zulu_sim_time :: string
  f_end_zulu_sim_time :: string
  f_user_aircraft_seq_nr :: "int option"
  f_cols :: "sqlval list"

record aircraft_row =
  a_id :: int
  a_flight_id :: int
  a_seq_nr :: "int option"
  a_type :: string
  a_cols :: "sqlval list"

record telemetry_row =
  t_aircraft_id :: int
  timestamp :: int
  t_cols :: "sqlval list"

text \<open>
  The Go struct \<open>Marker\<close> and a row of the table \<open>markers\<close> have the same fields
  (\<open>Time\<close> is the column \<open>time_seconds\<close>).
\<close>

record Marker =
  m_id :: int
  m_flight_id :: int
  m_time :: real
  m_label :: string
  m_type :: string

text \<open>The eight per-aircraft tables, each with primary key \<open>(aircraft_id, timestamp)\<close>.\<close>

datatype ttable =
  Position | Attitude | Engine | Handle | Light
  | PrimaryFlightControl | SecondaryFlightControl | Waypoint

record db =
  flight :: "flight_row list"
  aircraft :: "aircraft_row list"
  telemetry :: "ttable \<Rightarrow> telemetry_row list"
  markers :: "Marker list"
  markers_seq :: int

definition empty_db :: db where
  "empty_db = \<lparr>flight = [], aircraft = [], telemetry = (\<lambda>t. []), markers = [], markers_seq = 0\<rparr>"

datatype error =
  ErrNoRows
  | ErrScanNull
  | ErrNotNull
  | ErrUnique
  | ErrInvalidFlightID
  | ErrFlightNotFound
  | ErrInvalidTrimMarkerType
  | ErrTableNotFound string

text \<open>
  \<open>sql.DB.Begin\<close>, \<open>tx.Commit\<close> and the deferred \<open>tx.Rollback\<close>: a transaction works on
  its own copy of the committed store; \<open>Commit\<close> installs the copy, \<open>Rollback\<close> drops it.
  A statement run on \<open>mainDB\<close> itself reads or writes the committed store.
\<close>

definition Begin :: "db \<Rightarrow> db" where
  "Begin mainDB = mainDB"

definition Commit :: "db \<Rightarrow> db \<Rightarrow> db" where
  "Commit mainDB tx = tx"

definition Rollback :: "db \<Rightarrow> db \<Rightarrow> db" where
  "Rollback mainDB tx = mainDB"

text \<open>
  The row id SQLite gives to a row inserted without an id into a table declared
  \<open>integer primary key\<close>: one more than the largest id in use, 1 in an empty table.
\<close>

definition next_rowid :: "int list \<Rightarrow> int" where
  "next_rowid ids = (if ids = [] then 1 else Max (set ids) + 1)"

text \<open>
  \<open>INSERT INTO flight\<close>: \<open>user_aircraft_seq_nr\<close> is declared \<open>not null\<close>. The result is
  the store and \<open>LastInsertId\<close>.
\<close>

definition insert_flight ::
  "string option \<Rightarrow> string option \<Rightarrow> string \<Rightarrow> string \<Rightarrow> int option \<Rightarrow> sqlval list \<Rightarrow> db
     \<Rightarrow> error + db \<times> int" where
  "insert_flight ttl number startZulu endZulu userAircraftSeqNr cols d =
     (if userAircraftSeqNr = None then Inl ErrNotNull
      else
        let newID = next_rowid (map f_id (flight d)) in
        Inr (d\<lparr>flight := flight d @
                 [\<lparr>f_id = newID, f_title = ttl, f_flight_number = number,
                   f_start_zulu_sim_time = startZulu, f_end_zulu_sim_time = endZulu,
                   f_user_aircraft_seq_nr = userAircraftSeqNr, f_cols = cols\<rparr>]\<rparr>, newID))"

text \<open>
  \<open>INSERT INTO aircraft\<close>: \<open>seq_nr\<close> is declared \<open>not null\<close> and the index
  \<open>aircraft_idx1\<close> makes \<open>(flight_id, seq_nr)\<close> unique. Foreign keys are not enforced
  (the connection never switches them on).
\<close>

definition insert_aircraft ::
  "int \<Rightarrow> int option \<Rightarrow> string \<Rightarrow> sqlval list \<Rightarrow> db \<Rightarrow> error + db \<times> int" where
  "insert_aircraft flightID seqNr aircraftType cols d =
     (if seqNr = None then Inl ErrNotNull
      else if list_ex (\<lambda>a. a_flight_id a = flightID \<and> a_seq_nr a = seqNr) (aircraft d)
      then Inl ErrUnique
      else
        let newID = next_rowid (map a_id (aircraft d)) in
        Inr (d\<lparr>aircraft := aircraft d @
                 [\<lparr>a_id = newID, a_flight_id = flightID, a_seq_nr = seqNr,
                   a_type = aircraftType, a_cols = cols\<rparr>]\<rparr>, newID))"

text \<open>\<open>INSERT INTO\<close> one of the per-aircraft tables: the primary key must be new.\<close>

definition insert_telemetry ::
  "ttable \<Rightarrow> int \<Rightarrow> int \<Rightarrow> sqlval list \<Rightarrow> db \<Rightarrow> error + db" where
  "insert_telemetry t aircraftID ts cols d =
     (if list_ex (\<lambda>r. t_aircraft_id r = aircraftID \<and> timestamp r = ts) (telemetry d t)
      then Inl ErrUnique
      else Inr (d\<lparr>telemetry := (telemetry d)
                  (t := telemetry d t @
                     [\<lparr>t_aircraft_id = aircraftID, timestamp = ts, t_cols = cols\<rparr>])\<rparr>))"

text \<open>
  \<open>INSERT INTO markers\<close>: the id is \<open>AUTOINCREMENT\<close> (never reused), the column
  \<open>type\<close> is \<open>TEXT NOT NULL DEFAULT 'regular'\<close> and gets its default when the statement
  does not name it (\<open>None\<close>).
\<close>

definition insert_marker :: "int \<Rightarrow> real \<Rightarrow> string \<Rightarrow> string option \<Rightarrow> db \<Rightarrow> db \<times> int" where
  "insert_marker flightID timeSeconds label markerType d =
     (let newID = max (markers_seq d) (next_rowid (map m_id (markers d)) - 1) + 1 in
      (d\<lparr>markers := markers d @
            [\<lparr>m_id = newID, m_flight_id = flightID, m_time = timeSeconds, m_label = label,
              m_type = (case markerType of None \<Rightarrow> ''regular'' | Some ty \<Rightarrow> ty)\<rparr>],
         markers_seq := newID\<rparr>, newID))"

text \<open>The \<open>stmt.Exec\<close> loop over the rows of one series: it stops at the first error.\<close>

fun insert_series :: "ttable \<Rightarrow> int \<Rightarrow> (int \<times> sqlval list) list \<Rightarrow> db \<Rightarrow> error + db" where
  "insert_series t aircraftID [] d = Inr d"
| "insert_series t aircraftID ((ts, cols) # rest) d =
     (case insert_telemetry t aircraftID ts cols d of
        Inl err \<Rightarrow> Inl err
      | Inr d' \<Rightarrow> insert_series t aircraftID rest d')"

text \<open>\<open>SELECT ... FROM aircraft WHERE flight_id = ?\<close>\<close>

definition select_aircraft :: "db \<Rightarrow> int \<Rightarrow> aircraft_row list" where
  "select_aircraft d flightID = filter (\<lambda>a. a_flight_id a = flightID) (aircraft d)"

text \<open>\<open>SELECT ... FROM <table> WHERE aircraft_id = ? ORDER BY timestamp\<close>\<close>

definition select_series :: "ttable \<Rightarrow> db \<Rightarrow> int \<Rightarrow> telemetry_row list" where
  "select_series t d aircraftID =
     sort_key timestamp (filter (\<lambda>r. t_aircraft_id r = aircraftID) (telemetry d t))"

text \<open>\<open>SELECT ... FROM markers WHERE flight_id = ? ORDER BY time_seconds\<close>\<close>

definition select_markers :: "db \<Rightarrow> int \<Rightarrow> Marker list" where
  "select_markers d flightID =
     sort_key m_time (filter (\<lambda>m. m_flight_id m = flightID) (markers d))"

section \<open>Markers (data_analysis.go)\<close>

datatype 'a http_response = HttpError nat | HttpOK 'a

text \<open>\<open>createMarker\<close> runs its \<open>INSERT\<close> on \<open>mainDB\<close>, outside any transaction.\<close>

definition createMarker :: "Marker \<Rightarrow> db \<Rightarrow> db \<times> (error + Marker)" where
  "createMarker marker mainDB =
     (let marker = (if m_type marker = [] then marker\<lparr>m_type := ''regular''\<rparr> else marker) in
      case insert_marker (m_flight_id marker) (m_time marker) (m_label marker)
             (Some (m_type marker)) mainDB of
        (mainDB', newID) \<Rightarrow>
          (mainDB', Inr \<lparr>m_id = newID, m_flight_id = m_flight_id marker, m_time = m_time marker,
                         m_label = m_label marker, m_type = m_type marker\<rparr>))"

text \<open>\<open>DELETE FROM markers WHERE id = ?\<close>\<close>

definition deleteMarker :: "int \<Rightarrow> db \<Rightarrow> db" where
  "deleteMarker markerID mainDB =
     mainDB\<lparr>markers := filter (\<lambda>m. m_id m \<noteq> markerID) (markers mainDB)\<rparr>"

text \<open>
  \<open>handleCreateMarker\<close>, after the request body has been decoded into a \<open>Marker\<close>; the
  field \<open>Type\<close> is decoded from the key \<open>type\<close> of the body.
\<close>

definition handleCreateMarker :: "Marker \<Rightarrow> db \<Rightarrow> db \<times> Marker http_response" where
  "handleCreateMarker marker mainDB =
     (if m_flight_id marker = 0 \<or> m_label marker = [] then (mainDB, HttpError 400)
      else case createMarker marker mainDB of
             (mainDB', Inl err) \<Rightarrow> (mainDB', HttpError 500)
           | (mainDB', Inr createdMarker) \<Rightarrow> (mainDB', HttpOK createdMarker))"

text \<open>\<open>getTrimMarker\<close>: \<open>QueryRow\<close> yields the first matching row or \<open>sql.ErrNoRows\<close>.\<close>

definition getTrimMarker :: "int \<Rightarrow> string \<Rightarrow> db \<Rightarrow> error + Marker" where
  "getTrimMarker flightID markerType mainDB =
     (case filter (\<lambda>m. m_flight_id m = flightID \<and> m_type m = markerType) (markers mainDB) of
        [] \<Rightarrow> Inl ErrNoRows
      | m # rest \<Rightarrow> Inr m)"

definition createOrUpdateTrimMarker ::
  "int \<Rightarrow> string \<Rightarrow> real \<Rightarrow> string \<Rightarrow> db \<Rightarrow> db \<times> (error + Marker)" where
  "createOrUpdateTrimMarker flightID markerType time label mainDB =
     (if markerType \<noteq> ''trim_start'' \<and> markerType \<noteq> ''trim_end''
      then (mainDB, Inl ErrInvalidTrimMarkerType)
      else
        case getTrimMarker flightID markerType mainDB of
          Inr existingMarker \<Rightarrow>
            (mainDB\<lparr>markers :=
                map (\<lambda>m. if m_id m = m_id existingMarker
                         then m\<lparr>m_time := time, m_label := label\<rparr> else m)
                  (markers mainDB)\<rparr>,
             Inr (existingMarker\<lparr>m_time := time, m_label := label\<rparr>))
        | Inl ErrNoRows \<Rightarrow>
            createMarker \<lparr>m_id = 0, m_flight_id = flightID, m_time = time, m_label = label,
                          m_type = markerType\<rparr> mainDB
        | Inl err \<Rightarrow> (mainDB, Inl err))"

text \<open>
  \<open>DELETE FROM markers WHERE flight_id = ? AND type IN ('trim_start', 'trim_end')\<close>
\<close>

definition deleteTrimMarkers :: "int \<Rightarrow> db \<Rightarrow> db" where
  "deleteTrimMarkers flightID mainDB =
     mainDB\<lparr>markers :=
       filter (\<lambda>m. \<not> (m_flight_id m = flightID \<and> (m_type m = ''trim_start'' \<or> m_type m = ''trim_end'')))
         (markers mainDB)\<rparr>"

text \<open>The number of markers of a type that a flight has.\<close>

definition count_markers :: "db \<Rightarrow> int \<Rightarrow> string \<Rightarrow> nat" where
  "count_markers d flightID markerType =
     length (filter (\<lambda>m. m_flight_id m = flightID \<and> m_type m = markerType) (markers d))"

definition trim_bound :: "db \<Rightarrow> bool" where
  "trim_bound d =
     (\<forall>flightID. count_markers d flightID ''trim_start'' \<le> 1
        \<and> count_markers d flightID ''trim_end'' \<le> 1)"

section \<open>Full duplicate (data_analysis.go)\<close>

text \<open>\<open>SELECT COUNT(*) FROM flight WHERE title = ?\<close>: no row with a \<open>NULL\<close> title matches.\<close>

definition flightTitleExists :: "string \<Rightarrow> db \<Rightarrow> bool" where
  "flightTitleExists ttl mainDB =
     (length (filter (\<lambda>f. f_title f = Some ttl) (flight mainDB)) > 0)"

definition getAircraftByFlightIDFromMainDB :: "int \<Rightarrow> db \<Rightarrow> aircraft_row list" where
  "getAircraftByFlightIDFromMainDB flightID mainDB = select_aircraft mainDB flightID"

definition duplicateFlightRecord :: "db \<Rightarrow> int \<Rightarrow> string \<Rightarrow> error + db \<times> int" where
  "duplicateFlightRecord tx originalFlightID newTitle =
     (case filter (\<lambda>f. f_id f = originalFlightID) (flight tx) of
        [] \<Rightarrow> Inl ErrNoRows
      | f # rest \<Rightarrow>
          insert_flight (Some newTitle) (f_flight_number f) (f_start_zulu_sim_time f)
            (f_end_zulu_sim_time f) (f_user_aircraft_seq_nr f) (f_cols f) tx)"

definition duplicateAircraftRecord :: "db \<Rightarrow> aircraft_row \<Rightarrow> int \<Rightarrow> error + db \<times> int" where
  "duplicateAircraftRecord tx ac newFlightID =
     (case filter (\<lambda>a. a_id a = a_id ac) (aircraft tx) of
        [] \<Rightarrow> Inl ErrNoRows
      | a # rest \<Rightarrow> insert_aircraft newFlightID (a_seq_nr a) (a_type a) (a_cols a) tx)"

text \<open>
  The three copy functions have the same shape: the rows of the original aircraft, in
  the order of their timestamps, are inserted under the new aircraft id.
\<close>

definition duplicatePositionData :: "db \<Rightarrow> int \<Rightarrow> int \<Rightarrow> error + db" where
  "duplicatePositionData tx originalAircraftID newAircraftID =
     insert_series Position newAircraftID
       (map (\<lambda>r. (timestamp r, t_cols r)) (select_series Position tx originalAircraftID)) tx"

definition duplicateAttitudeData :: "db \<Rightarrow> int \<Rightarrow> int \<Rightarrow> error + db" where
  "duplicateAttitudeData tx originalAircraftID newAircraftID =
     insert_series Attitude newAircraftID
       (map (\<lambda>r. (timestamp r, t_cols r)) (select_series Attitude tx originalAircraftID)) tx"

definition duplicateEngineData :: "db \<Rightarrow> int \<Rightarrow> int \<Rightarrow> error + db" where
  "duplicateEngineData tx originalAircraftID newAircraftID =
     insert_series Engine newAircraftID
       (map (\<lambda>r. (timestamp r, t_cols r)) (select_series Engine tx originalAircraftID)) tx"

text \<open>
  \<open>duplicateMarkers\<close> selects \<open>time_seconds\<close> and \<open>label\<close> and inserts
  \<open>(flight_id, time_seconds, label)\<close>: the statement does not name the column \<open>type\<close>.
\<close>

fun insert_markers_default :: "int \<Rightarrow> (real \<times> string) list \<Rightarrow> db \<Rightarrow> db" where
  "insert_markers_default newFlightID [] tx = tx"
| "insert_markers_default newFlightID ((timeSeconds, label) # rest) tx =
     insert_markers_default newFlightID rest
       (fst (insert_marker newFlightID timeSeconds label None tx))"

definition duplicateMarkers :: "db \<Rightarrow> int \<Rightarrow> int \<Rightarrow> error + db" where
  "duplicateMarkers tx originalFlightID newFlightID =
     Inr (insert_markers_default newFlightID
            (map (\<lambda>m. (m_time m, m_label m)) (select_markers tx originalFlightID)) tx)"

text \<open>Step 3 of \<open>duplicateFlight\<close>: the loop over the aircraft of the original flight.\<close>

fun duplicateAircraftLoop :: "db \<Rightarrow> aircraft_row list \<Rightarrow> int \<Rightarrow> error + db" where
  "duplicateAircraftLoop tx [] newFlightID = Inr tx"
| "duplicateAircraftLoop tx (ac # rest) newFlightID =
     (case duplicateAircraftRecord tx ac newFlightID of
        Inl err \<Rightarrow> Inl err
      | Inr (tx1, newAircraftID) \<Rightarrow>
          (case duplicatePositionData tx1 (a_id ac) newAircraftID of
             Inl err \<Rightarrow> Inl err
           | Inr tx2 \<Rightarrow>
               (case duplicateAttitudeData tx2 (a_id ac) newAircraftID of
                  Inl err \<Rightarrow> Inl err
                | Inr tx3 \<Rightarrow>
                    (case duplicateEngineData tx3 (a_id ac) newAircraftID of
                       Inl err \<Rightarrow> Inl err
                     | Inr tx4 \<Rightarrow> duplicateAircraftLoop tx4 rest newFlightID))))"

definition duplicateFlight :: "int \<Rightarrow> string \<Rightarrow> db \<Rightarrow> db \<times> (error + int)" where
  "duplicateFlight originalFlightID newTitle mainDB =
     (let tx = Begin mainDB in
      case duplicateFlightRecord tx originalFlightID newTitle of
        Inl err \<Rightarrow> (Rollback mainDB tx, Inl err)
      | Inr (tx1, newFlightID) \<Rightarrow>
          (let aircraft = getAircraftByFlightIDFromMainDB originalFlightID mainDB in
           case duplicateAircraftLoop tx1 aircraft newFlightID of
             Inl err \<Rightarrow> (Rollback mainDB tx1, Inl err)
           | Inr tx2 \<Rightarrow>
               (case duplicateMarkers tx2 originalFlightID newFlightID of
                  Inl err \<Rightarrow> (Rollback mainDB tx2, Inl err)
                | Inr tx3 \<Rightarrow> (Commit mainDB tx3, Inr newFlightID))))"

section \<open>Trim (data_analysis.go)\<close>

text \<open>
  Seconds are \<open>float64\<close> in the source and real numbers here. The conversion
  \<open>int64(x)\<close> truncates towards zero; values beyond the 64-bit range are outside the model.
\<close>

definition go_int64 :: "real \<Rightarrow> int" where
  "go_int64 x = (if 0 \<le> x then \<lfloor>x\<rfloor> else \<lceil>x\<rceil>)"

text \<open>
  \<open>SELECT MIN(timestamp) FROM <table> WHERE aircraft_id = ?\<close>, scanned into an
  \<open>int64\<close>. The aggregate always yields one row, so \<open>sql.ErrNoRows\<close> never occurs; over
  no rows its value is \<open>NULL\<close>, which \<open>Scan\<close> refuses to convert to \<open>int64\<close>.
\<close>

definition min_timestamp :: "ttable \<Rightarrow> db \<Rightarrow> int \<Rightarrow> error + int" where
  "min_timestamp t tx aircraftID =
     (case filter (\<lambda>r. t_aircraft_id r = aircraftID) (telemetry tx t) of
        [] \<Rightarrow> Inl ErrScanNull
      | r # rest \<Rightarrow> Inr (Min (set (map timestamp (r # rest)))))"

definition duplicatePositionDataTrimmed :: "db \<Rightarrow> int \<Rightarrow> int \<Rightarrow> real \<Rightarrow> real \<Rightarrow> error + db" where
  "duplicatePositionDataTrimmed tx originalAircraftID newAircraftID startTime endTime =
     (case min_timestamp Position tx originalAircraftID of
        Inl err \<Rightarrow> Inl err
      | Inr minTimestamp \<Rightarrow>
          let startTimestamp = minTimestamp + go_int64 (startTime * 1000);
              endTimestamp = minTimestamp + go_int64 (endTime * 1000);
              rows = filter (\<lambda>r. timestamp r \<ge> startTimestamp \<and> timestamp r \<le> endTimestamp)
                       (select_series Position tx originalAircraftID)
          in insert_series Position newAircraftID
               (map (\<lambda>r. (minTimestamp + (timestamp r - startTimestamp), t_cols r)) rows) tx)"

definition duplicateAttitudeDataTrimmed :: "db \<Rightarrow> int \<Rightarrow> int \<Rightarrow> real \<Rightarrow> real \<Rightarrow> error + db" where
  "duplicateAttitudeDataTrimmed tx originalAircraftID newAircraftID startTime endTime =
     (case min_timestamp Attitude tx originalAircraftID of
        Inl err \<Rightarrow> Inl err
      | Inr minTimestamp \<Rightarrow>
          let startTimestamp = minTimestamp + go_int64 (startTime * 1000);
              endTimestamp = minTimestamp + go_int64 (endTime * 1000);
              rows = filter (\<lambda>r. timestamp r \<ge> startTimestamp \<and> timestamp r \<le> endTimestamp)
                       (select_series Attitude tx originalAircraftID)
          in insert_series Attitude newAircraftID
               (map (\<lambda>r. (minTimestamp + (timestamp r - startTimestamp), t_cols r)) rows) tx)"

definition duplicateEngineDataTrimmed :: "db \<Rightarrow> int \<Rightarrow> int \<Rightarrow> real \<Rightarrow> real \<Rightarrow> error + db" where
  "duplicateEngineDataTrimmed tx originalAircraftID newAircraftID startTime endTime =
     (case min_timestamp Engine tx originalAircraftID of
        Inl err \<Rightarrow> Inl err
      | Inr minTimestamp \<Rightarrow>
          let startTimestamp = minTimestamp + go_int64 (startTime * 1000);
              endTimestamp = minTimestamp + go_int64 (endTime * 1000);
              rows = filter (\<lambda>r. timestamp r \<ge> startTimestamp \<and> timestamp r \<le> endTimestamp)
                       (select_series Engine tx originalAircraftID)
          in insert_series Engine newAircraftID
               (map (\<lambda>r. (minTimestamp + (timestamp r - startTimestamp), t_cols r)) rows) tx)"

text \<open>
  \<open>duplicateMarkersTrimmed\<close> names the column \<open>type\<close> in both statements
  (\<open>COALESCE(type, 'regular')\<close> is the type itself, the column being \<open>NOT NULL\<close>).
\<close>

fun insert_markers_typed :: "int \<Rightarrow> (real \<times> string \<times> string) list \<Rightarrow> db \<Rightarrow> db" where
  "insert_markers_typed newFlightID [] tx = tx"
| "insert_markers_typed newFlightID ((adjustedTime, label, markerType) # rest) tx =
     insert_markers_typed newFlightID rest
       (fst (insert_marker newFlightID adjustedTime label (Some markerType) tx))"

definition duplicateMarkersTrimmed :: "db \<Rightarrow> int \<Rightarrow> int \<Rightarrow> real \<Rightarrow> real \<Rightarrow> error + db" where
  "duplicateMarkersTrimmed tx originalFlightID newFlightID startTime endTime =
     Inr (insert_markers_typed newFlightID
            (map (\<lambda>m. (m_time m - startTime, m_label m, m_type m))
               (filter (\<lambda>m. m_time m \<ge> startTime \<and> m_time m \<le> endTime)
                  (select_markers tx originalFlightID))) tx)"

fun trimAircraftLoop :: "db \<Rightarrow> aircraft_row list \<Rightarrow> int \<Rightarrow> real \<Rightarrow> real \<Rightarrow> error + db" where
  "trimAircraftLoop tx [] newFlightID startTime endTime = Inr tx"
| "trimAircraftLoop tx (ac # rest) newFlightID startTime endTime =
     (case duplicateAircraftRecord tx ac newFlightID of
        Inl err \<Rightarrow> Inl err
      | Inr (tx1, newAircraftID) \<Rightarrow>
          (case duplicatePositionDataTrimmed tx1 (a_id ac) newAircraftID startTime endTime of
             Inl err \<Rightarrow> Inl err
           | Inr tx2 \<Rightarrow>
               (case duplicateAttitudeDataTrimmed tx2 (a_id ac) newAircraftID startTime endTime of
                  Inl err \<Rightarrow> Inl err
                | Inr tx3 \<Rightarrow>
                    (case duplicateEngineDataTrimmed tx3 (a_id ac) newAircraftID startTime endTime of
                       Inl err \<Rightarrow> Inl err
                     | Inr tx4 \<Rightarrow> trimAircraftLoop tx4 rest newFlightID startTime endTime))))"

definition trimFlight :: "int \<Rightarrow> string \<Rightarrow> real \<Rightarrow> real \<Rightarrow> db \<Rightarrow> db \<times> (error + int)" where
  "trimFlight originalFlightID newTitle startTime endTime mainDB =
     (let tx = Begin mainDB in
      case duplicateFlightRecord tx originalFlightID newTitle of
        Inl err \<Rightarrow> (Rollback mainDB tx, Inl err)
      | Inr (tx1, newFlightID) \<Rightarrow>
          (let aircraft = getAircraftByFlightIDFromMainDB originalFlightID mainDB in
           case trimAircraftLoop tx1 aircraft newFlightID startTime endTime of
             Inl err \<Rightarrow> (Rollback mainDB tx1, Inl err)
           | Inr tx2 \<Rightarrow>
               (case duplicateMarkersTrimmed tx2 originalFlightID newFlightID startTime endTime of
                  Inl err \<Rightarrow> (Rollback mainDB tx2, Inl err)
                | Inr tx3 \<Rightarrow> (Commit mainDB tx3, Inr newFlightID))))"

text \<open>
  \<open>handleTrimFlight\<close>: the request method and, once the body has been decoded, its four
  fields. The answer is the HTTP status with, on success, the id of the new flight.
\<close>

datatype http_method = GET | POST | DELETE



section \<open>Delete (DeleteFlight, handleDeleteFlight)\<close>

text \<open>\<open>DELETE FROM <table> WHERE aircraft_id = ?\<close>\<close>

definition delete_telemetry :: "ttable \<Rightarrow> int \<Rightarrow> db \<Rightarrow> db" where
  "delete_telemetry t aircraftID tx =
     tx\<lparr>telemetry := (telemetry tx)
           (t := filter (\<lambda>r. t_aircraft_id r \<noteq> aircraftID) (telemetry tx t))\<rparr>"

definition getAircraftIDsForFlight :: "db \<Rightarrow> int \<Rightarrow> int list" where
  "getAircraftIDsForFlight tx flightID = map a_id (select_aircraft tx flightID)"

text \<open>The body of the loop over the aircraft ids: eight \<open>DELETE\<close> statements.\<close>

definition deleteAircraftData :: "int \<Rightarrow> db \<Rightarrow> db" where
  "deleteAircraftData aircraftID tx =
     delete_telemetry Waypoint aircraftID
       (delete_telemetry SecondaryFlightControl aircraftID
          (delete_telemetry PrimaryFlightControl aircraftID
             (delete_telemetry Light aircraftID
                (delete_telemetry Handle aircraftID
                   (delete_telemetry Engine aircraftID
                      (delete_telemetry Attitude aircraftID
                         (delete_telemetry Position aircraftID tx)))))))"

definition DeleteFlight :: "int \<Rightarrow> db \<Rightarrow> db \<times> (error + unit)" where
  "DeleteFlight flightID mainDB =
     (if flightID \<le> 0 then (mainDB, Inl ErrInvalidFlightID)
      else
        let tx = Begin mainDB;
            aircraftIDs = getAircraftIDsForFlight tx flightID;
            tx1 = fold deleteAircraftData aircraftIDs tx;
            tx2 = tx1\<lparr>markers := filter (\<lambda>m. m_flight_id m \<noteq> flightID) (markers tx1)\<rparr>;
            tx3 = tx2\<lparr>aircraft := filter (\<lambda>a. a_flight_id a \<noteq> flightID) (aircraft tx2)\<rparr>;
            rowsAffected = length (filter (\<lambda>f. f_id f = flightID) (flight tx3));
            tx4 = tx3\<lparr>flight := filter (\<lambda>f. f_id f \<noteq> flightID) (flight tx3)\<rparr>
        in if rowsAffected = 0 then (Rollback mainDB tx4, Inl ErrFlightNotFound)
           else (Commit mainDB tx4, Inr ()))"

text \<open>
  \<open>handleDeleteFlight\<close> with the id parsed from the query: it looks the flight up
  (\<open>getFlightByIDFromMainDB\<close>) before it deletes.
\<close>

definition getFlightByIDFromMainDB :: "int \<Rightarrow> db \<Rightarrow> error + flight_row" where
  "getFlightByIDFromMainDB flightID mainDB =
     (case filter (\<lambda>f. f_id f = flightID) (flight mainDB) of
        [] \<Rightarrow> Inl ErrNoRows
      | f # rest \<Rightarrow> Inr f)"

definition handleDeleteFlight :: "http_method \<Rightarrow> int \<Rightarrow> db \<Rightarrow> db \<times> unit http_response" where
  "handleDeleteFlight method flightId mainDB =
     (if method \<noteq> DELETE then (mainDB, HttpError 405)
      else case getFlightByIDFromMainDB flightId mainDB of
             Inl err \<Rightarrow> (mainDB, HttpError 404)
           | Inr f \<Rightarrow>
               (case DeleteFlight flightId mainDB of
                  (mainDB', Inl err) \<Rightarrow> (mainDB', HttpError 500)
                | (mainDB', Inr u) \<Rightarrow> (mainDB', HttpOK ())))"

section \<open>Import of a foreign database (ImportFlightsFromDatabase)\<close>

text \<open>
  The foreign database: the names of its tables and its rows. Its rows have the shape of
  the canonical ones, but nothing says that they satisfy the canonical constraints.
\<close>

record source_db =
  src_tables :: "string list"
  src :: db

text \<open>The Go struct \<open>Flight\<close>.\<close>

record Flight =
  ID :: int
  SourceID :: int
  Title :: string
  FlightNumber :: string
  FlightStartTime :: string
  FlightEndTime :: string

fun verifyTables :: "string list \<Rightarrow> source_db \<Rightarrow> error + unit" where
  "verifyTables [] sourceDB = Inr ()"
| "verifyTables (table # rest) sourceDB =
     (if table \<in> set (src_tables sourceDB) then verifyTables rest sourceDB
      else Inl (ErrTableNotFound table))"

definition verifyDatabaseSchema :: "source_db \<Rightarrow> error + unit" where
  "verifyDatabaseSchema sourceDB =
     verifyTables [''flight'', ''aircraft'', ''position'', ''attitude'', ''engine''] sourceDB"

text \<open>
  The loop of \<open>importFlights\<close> over the flights of the source, which arrive
  \<open>ORDER BY start_zulu_sim_time DESC\<close> (the order among equal start times is the
  engine's choice; here it is the reverse of the table order).
\<close>

fun importFlightsLoop :: "flight_row list \<Rightarrow> db \<Rightarrow> Flight list \<Rightarrow> error + db \<times> Flight list" where
  "importFlightsLoop [] tx flights = Inr (tx, flights)"
| "importFlightsLoop (row # rest) tx flights =
     (case insert_flight (f_title row) (f_flight_number row) (f_start_zulu_sim_time row)
             (f_end_zulu_sim_time row) (f_user_aircraft_seq_nr row) (f_cols row) tx of
        Inl err \<Rightarrow> Inl err
      | Inr (tx', newID) \<Rightarrow>
          let ttl = (case f_title row of None \<Rightarrow> [] | Some s \<Rightarrow> s);
              number = (case f_flight_number row of None \<Rightarrow> [] | Some s \<Rightarrow> s);
              imported = \<lparr>ID = newID, SourceID = f_id row,
                        Title = (if ttl = [] then ''Untitled'' else ttl),
                        FlightNumber = (if number = [] then ''No Number'' else number),
                        FlightStartTime = f_start_zulu_sim_time row,
                        FlightEndTime = f_end_zulu_sim_time row\<rparr>
          in importFlightsLoop rest tx' (flights @ [imported]))"

definition importFlights :: "source_db \<Rightarrow> db \<Rightarrow> error + db \<times> Flight list" where
  "importFlights sourceDB tx =
     importFlightsLoop (rev (sort_key f_start_zulu_sim_time (flight (src sourceDB)))) tx []"

text \<open>
  \<open>importPositionData\<close> copies the six value columns of the source; the canonical
  column \<open>indicated_airspeed\<close> is not named and stays \<open>NULL\<close>.
\<close>

definition importPositionData :: "source_db \<Rightarrow> db \<Rightarrow> int \<Rightarrow> int \<Rightarrow> error + db" where
  "importPositionData sourceDB tx sourceAircraftID newAircraftID =
     insert_series Position newAircraftID
       (map (\<lambda>r. (timestamp r, take 6 (t_cols r) @ [SqlNull]))
          (select_series Position (src sourceDB) sourceAircraftID)) tx"

definition importAttitudeData :: "source_db \<Rightarrow> db \<Rightarrow> int \<Rightarrow> int \<Rightarrow> error + db" where
  "importAttitudeData sourceDB tx sourceAircraftID newAircraftID =
     insert_series Attitude newAircraftID
       (map (\<lambda>r. (timestamp r, t_cols r))
          (select_series Attitude (src sourceDB) sourceAircraftID)) tx"

definition importEngineData :: "source_db \<Rightarrow> db \<Rightarrow> int \<Rightarrow> int \<Rightarrow> error + db" where
  "importEngineData sourceDB tx sourceAircraftID newAircraftID =
     insert_series Engine newAircraftID
       (map (\<lambda>r. (timestamp r, t_cols r))
          (select_series Engine (src sourceDB) sourceAircraftID)) tx"

text \<open>The loop of \<open>importAircraftForFlight\<close> over the aircraft of one source flight.\<close>

fun importAircraftLoop :: "source_db \<Rightarrow> aircraft_row list \<Rightarrow> int \<Rightarrow> db \<Rightarrow> error + db" where
  "importAircraftLoop sourceDB [] newFlightID tx = Inr tx"
| "importAircraftLoop sourceDB (row # rest) newFlightID tx =
     (case insert_aircraft newFlightID (a_seq_nr row) (a_type row) (a_cols row) tx of
        Inl err \<Rightarrow> Inl err
      | Inr (tx1, newAircraftID) \<Rightarrow>
          (case importPositionData sourceDB tx1 (a_id row) newAircraftID of
             Inl err \<Rightarrow> Inl err
           | Inr tx2 \<Rightarrow>
               (case importAttitudeData sourceDB tx2 (a_id row) newAircraftID of
                  Inl err \<Rightarrow> Inl err
                | Inr tx3 \<Rightarrow>
                    (case importEngineData sourceDB tx3 (a_id row) newAircraftID of
                       Inl err \<Rightarrow> Inl err
                     | Inr tx4 \<Rightarrow> importAircraftLoop sourceDB rest newFlightID tx4))))"

definition importAircraftForFlight :: "source_db \<Rightarrow> db \<Rightarrow> int \<Rightarrow> int \<Rightarrow> error + db" where
  "importAircraftForFlight sourceDB tx sourceFlightID newFlightID =
     importAircraftLoop sourceDB (select_aircraft (src sourceDB) sourceFlightID) newFlightID tx"

text \<open>The loop of \<open>ImportFlightsFromDatabase\<close> over the imported flights.\<close>

fun importAircraftForFlights :: "source_db \<Rightarrow> Flight list \<Rightarrow> db \<Rightarrow> error + db" where
  "importAircraftForFlights sourceDB [] tx = Inr tx"
| "importAircraftForFlights sourceDB (imported # rest) tx =
     (case importAircraftForFlight sourceDB tx (SourceID imported) (ID imported) of
        Inl err \<Rightarrow> Inl err
      | Inr tx' \<Rightarrow> importAircraftForFlights sourceDB rest tx')"

definition ImportFlightsFromDatabase :: "source_db \<Rightarrow> db \<Rightarrow> db \<times> (error + Flight list)" where
  "ImportFlightsFromDatabase sourceDB mainDB =
     (case verifyDatabaseSchema sourceDB of
        Inl err \<Rightarrow> (mainDB, Inl err)
      | Inr u \<Rightarrow>
          let tx = Begin mainDB in
          case importFlights sourceDB tx of
            Inl err \<Rightarrow> (Rollback mainDB tx, Inl err)
          | Inr (tx1, flights) \<Rightarrow>
              (case importAircraftForFlights sourceDB flights tx1 of
                 Inl err \<Rightarrow> (Rollback mainDB tx1, Inl err)
               | Inr tx2 \<Rightarrow> (Commit mainDB tx2, Inr flights)))"

section \<open>Auxiliary definitions for the statements and their proofs\<close>

text \<open>The eight per-aircraft tables.\<close>

definition all_tables :: "ttable list" where
  "all_tables = [Position, Attitude, Engine, Handle, Light,
                 PrimaryFlightControl, SecondaryFlightControl, Waypoint]"

text \<open>
  The constraints that the schema declares on flights, aircraft and per-aircraft rows:
  primary keys, \<open>not null\<close> columns, the unique index on \<open>(flight_id, seq_nr)\<close> and
  the foreign keys (ownership is tree-shaped: every aircraft has its flight, every
  telemetry row its aircraft, every marker its flight). The engine enforces the keys and
  the \<open>not null\<close> columns on every insert. It does not enforce the foreign keys, since
  the connection never switches them on: the operations modelled here insert aircraft and
  per-aircraft rows only under a row they have just inserted and delete them together with
  it, whereas \<open>handleCreateMarker\<close> can store a marker of a flight that does not exist.
\<close>

definition wf_db :: "db \<Rightarrow> bool" where
  "wf_db d \<longleftrightarrow>
     distinct (map f_id (flight d))
     \<and> (\<forall>f \<in> set (flight d). f_user_aircraft_seq_nr f \<noteq> None)
     \<and> distinct (map a_id (aircraft d))
     \<and> (\<forall>a \<in> set (aircraft d). a_seq_nr a \<noteq> None)
     \<and> distinct (map (\<lambda>a. (a_flight_id a, a_seq_nr a)) (aircraft d))
     \<and> (\<forall>t \<in> set all_tables. distinct (map (\<lambda>r. (t_aircraft_id r, timestamp r)) (telemetry d t)))
     \<and> (\<forall>a \<in> set (aircraft d). a_flight_id a \<in> f_id ` set (flight d))
     \<and> (\<forall>t \<in> set all_tables. \<forall>r \<in> set (telemetry d t). t_aircraft_id r \<in> a_id ` set (aircraft d))
     \<and> (\<forall>m \<in> set (markers d). m_flight_id m \<in> f_id ` set (flight d))"

text \<open>
  A row built from a timestamp and the value columns, under an aircraft id; the rows of
  one aircraft in one table, in table order; a table with rows added at its end.
\<close>

definition mk_row :: "int \<Rightarrow> int \<times> sqlval list \<Rightarrow> telemetry_row" where
  "mk_row a p = \<lparr>t_aircraft_id = a, timestamp = fst p, t_cols = snd p\<rparr>"

definition rows_of :: "ttable \<Rightarrow> db \<Rightarrow> int \<Rightarrow> telemetry_row list" where
  "rows_of t d a = filter (\<lambda>r. t_aircraft_id r = a) (telemetry d t)"

definition append_rows :: "ttable \<Rightarrow> telemetry_row list \<Rightarrow> db \<Rightarrow> db" where
  "append_rows t rows d = d\<lparr>telemetry := (telemetry d)(t := telemetry d t @ rows)\<rparr>"

text \<open>
  The copy functions of the duplicate and of the trim share one shape: the rows of the
  original aircraft in one table are turned into the rows to insert (or into an error),
  and these are inserted under the new aircraft id.
\<close>

definition copy_series ::
  "(telemetry_row list \<Rightarrow> error + (int \<times> sqlval list) list) \<Rightarrow> ttable \<Rightarrow> db \<Rightarrow> int \<Rightarrow> int
     \<Rightarrow> error + db" where
  "copy_series sel t tx orig new =
     (case sel (rows_of t tx orig) of
        Inl err \<Rightarrow> Inl err
      | Inr out \<Rightarrow> insert_series t new out tx)"

fun copyAircraftLoop ::
  "(telemetry_row list \<Rightarrow> error + (int \<times> sqlval list) list) \<Rightarrow> db \<Rightarrow> aircraft_row list \<Rightarrow> int
     \<Rightarrow> error + db" where
  "copyAircraftLoop sel tx [] newFlightID = Inr tx"
| "copyAircraftLoop sel tx (ac # rest) newFlightID =
     (case duplicateAircraftRecord tx ac newFlightID of
        Inl err \<Rightarrow> Inl err
      | Inr (tx1, newAircraftID) \<Rightarrow>
          (case copy_series sel Position tx1 (a_id ac) newAircraftID of
             Inl err \<Rightarrow> Inl err
           | Inr tx2 \<Rightarrow>
               (case copy_series sel Attitude tx2 (a_id ac) newAircraftID of
                  Inl err \<Rightarrow> Inl err
                | Inr tx3 \<Rightarrow>
                    (case copy_series sel Engine tx3 (a_id ac) newAircraftID of
                       Inl err \<Rightarrow> Inl err
                     | Inr tx4 \<Rightarrow> copyAircraftLoop sel tx4 rest newFlightID))))"

text \<open>
  The two selections: all rows in the order of their timestamps (full duplicate), and the
  rows of the window with their timestamps moved (trim). The lemmas
  \<open>duplicate_copy_series\<close>, \<open>trimmed_copy_series\<close>, \<open>duplicateAircraftLoop_copy\<close> and
  \<open>trimAircraftLoop_copy\<close> show that the functions of the source are these instances.
\<close>

definition sel_all :: "telemetry_row list \<Rightarrow> error + (int \<times> sqlval list) list" where
  "sel_all rows = Inr (map (\<lambda>r. (timestamp r, t_cols r)) (sort_key timestamp rows))"

definition sel_trim :: "real \<Rightarrow> real \<Rightarrow> telemetry_row list \<Rightarrow> error + (int \<times> sqlval list) list" where
  "sel_trim startTime endTime rows =
     (if rows = [] then Inl ErrScanNull
      else
        let minTimestamp = Min (set (map timestamp rows));
            startTimestamp = minTimestamp + go_int64 (startTime * 1000);
            endTimestamp = minTimestamp + go_int64 (endTime * 1000)
        in Inr (map (\<lambda>r. (minTimestamp + (timestamp r - startTimestamp), t_cols r))
                  (filter (\<lambda>r. timestamp r \<ge> startTimestamp \<and> timestamp r \<le> endTimestamp)
                     (sort_key timestamp rows))))"

text \<open>The store after one round of the loop: the new aircraft row and its three series.\<close>

definition new_aircraft :: "db \<Rightarrow> aircraft_row \<Rightarrow> int \<Rightarrow> aircraft_row" where
  "new_aircraft tx ac newFlightID =
     \<lparr>a_id = next_rowid (map a_id (aircraft tx)), a_flight_id = newFlightID,
      a_seq_nr = a_seq_nr ac, a_type = a_type ac, a_cols = a_cols ac\<rparr>"

definition copied ::
  "db \<Rightarrow> aircraft_row \<Rightarrow> int \<Rightarrow> (ttable \<Rightarrow> (int \<times> sqlval list) list) \<Rightarrow> db" where
  "copied tx ac newFlightID out =
     (let n = next_rowid (map a_id (aircraft tx)) in
      append_rows Engine (map (mk_row n) (out Engine))
        (append_rows Attitude (map (mk_row n) (out Attitude))
           (append_rows Position (map (mk_row n) (out Position))
              (tx\<lparr>aircraft := aircraft tx @ [new_aircraft tx ac newFlightID]\<rparr>))))"

text \<open>
  What one copied aircraft looks like in the final store: the fields of the original under
  the new flight, and in each of the three tables the rows that the selection gave.
\<close>

definition copy_of ::
  "(telemetry_row list \<Rightarrow> error + (int \<times> sqlval list) list) \<Rightarrow> db \<Rightarrow> db \<Rightarrow> int
     \<Rightarrow> aircraft_row \<Rightarrow> aircraft_row \<Rightarrow> bool" where
  "copy_of sel tx tx' newFlightID ac n \<longleftrightarrow>
     a_flight_id n = newFlightID \<and> a_seq_nr n = a_seq_nr ac \<and> a_type n = a_type ac
     \<and> a_cols n = a_cols ac \<and> a_id n \<notin> a_id ` set (aircraft tx)
     \<and> (\<forall>t \<in> {Position, Attitude, Engine}.
           \<exists>out. sel (rows_of t tx (a_id ac)) = Inr out
             \<and> rows_of t tx' (a_id n) = map (mk_row (a_id n)) out)"

text \<open>The flight row that a duplicate or a trim inserts.\<close>

definition new_flight :: "db \<Rightarrow> flight_row \<Rightarrow> string \<Rightarrow> flight_row" where
  "new_flight d f newTitle =
     \<lparr>f_id = next_rowid (map f_id (flight d)), f_title = Some newTitle,
      f_flight_number = f_flight_number f, f_start_zulu_sim_time = f_start_zulu_sim_time f,
      f_end_zulu_sim_time = f_end_zulu_sim_time f,
      f_user_aircraft_seq_nr = f_user_aircraft_seq_nr f, f_cols = f_cols f\<rparr>"

section \<open>Example inputs\<close>

definition pointWithAltitude :: "real \<Rightarrow> PositionPoint" where
  "pointWithAltitude a =
     \<lparr>Timestamp = 0, TimestampSeconds = 0, Altitude = a, Latitude = 0, Longitude = 0,
      IndicatedAltitude = 0, PressureAltitude = 0, Airspeed = 0\<rparr>"

definition example_flight :: "int \<Rightarrow> string \<Rightarrow> flight_row" where
  "example_flight i ttl =
     \<lparr>f_id = i, f_title = Some ttl, f_flight_number = None,
      f_start_zulu_sim_time = ''2025-07-30T21:05:41Z'',
      f_end_zulu_sim_time = ''2025-07-30T21:35:41Z'',
      f_user_aircraft_seq_nr = Some 1, f_cols = []\<rparr>"

text \<open>
  One flight with one aircraft: eleven position rows ten seconds apart (offsets 0 to 100 s),
  an attitude series that starts half a second later, an engine series, and three markers.
\<close>

definition example_db :: db where
  "example_db =
     \<lparr>flight = [example_flight 1 ''F''],
      aircraft = [\<lparr>a_id = 1, a_flight_id = 1, a_seq_nr = Some 1, a_type = ''C172'', a_cols = []\<rparr>],
      telemetry = (\<lambda>t.
        if t = Position
        then map (\<lambda>k. \<lparr>t_aircraft_id = 1, timestamp = 1000 + 10000 * k, t_cols = []\<rparr>) [0..10]
        else if t = Attitude
        then map (\<lambda>k. \<lparr>t_aircraft_id = 1, timestamp = 1500 + 10000 * k, t_cols = []\<rparr>) [0..10]
        else if t = Engine
        then map (\<lambda>k. \<lparr>t_aircraft_id = 1, timestamp = 1000 + 20000 * k, t_cols = []\<rparr>) [0..5]
        else []),
      markers =
        [\<lparr>m_id = 1, m_flight_id = 1, m_time = 10, m_label = ''Trim Start'', m_type = ''trim_start''\<rparr>,
         \<lparr>m_id = 2, m_flight_id = 1, m_time = 25, m_label = ''turn'', m_type = ''regular''\<rparr>,
         \<lparr>m_id = 3, m_flight_id = 1, m_time = 40, m_label = ''Trim End'', m_type = ''trim_end''\<rparr>],
      markers_seq = 3\<rparr>"

text \<open>
  A foreign database with two flights of two aircraft each. The position rows of the
  aircraft that is imported fourth repeat a timestamp, which the primary key of the
  canonical table refuses.
\<close>

definition example_source :: source_db where
  "example_source =
     \<lparr>src_tables = [''metadata'', ''flight'', ''aircraft'', ''position'', ''attitude'', ''engine''],
      src =
        \<lparr>flight =
           [\<lparr>f_id = 10, f_title = Some ''A'', f_flight_number = None,
             f_start_zulu_sim_time = ''2025-07-31T09:00:00Z'',
             f_end_zulu_sim_time = ''2025-07-31T09:30:00Z'',
             f_user_aircraft_seq_nr = Some 1, f_cols = []\<rparr>,
            \<lparr>f_id = 11, f_title = None, f_flight_number = None,
             f_start_zulu_sim_time = ''2025-07-30T09:00:00Z'',
             f_end_zulu_sim_time = ''2025-07-30T09:30:00Z'',
             f_user_aircraft_seq_nr = Some 1, f_cols = []\<rparr>],
         aircraft =
           [\<lparr>a_id = 1, a_flight_id = 10, a_seq_nr = Some 1, a_type = ''C172'', a_cols = []\<rparr>,
            \<lparr>a_id = 2, a_flight_id = 10, a_seq_nr = Some 2, a_type = ''A320'', a_cols = []\<rparr>,
            \<lparr>a_id = 3, a_flight_id = 11, a_seq_nr = Some 1, a_type = ''C172'', a_cols = []\<rparr>,
            \<lparr>a_id = 4, a_flight_id = 11, a_seq_nr = Some 2, a_type = ''A320'', a_cols = []\<rparr>],
         telemetry = (\<lambda>t.
           if t = Position
           then [\<lparr>t_aircraft_id = 1, timestamp = 0, t_cols = []\<rparr>,
                 \<lparr>t_aircraft_id = 2, timestamp = 0, t_cols = []\<rparr>,
                 \<lparr>t_aircraft_id = 3, timestamp = 0, t_cols = []\<rparr>,
                 \<lparr>t_aircraft_id = 4, timestamp = 0, t_cols = []\<rparr>,
                 \<lparr>t_aircraft_id = 4, timestamp = 0, t_cols = []\<rparr>]
           else []),
         markers = [], markers_seq = 0\<rparr>\<rparr>"

text \<open>The same database without the rows of the per-aircraft tables.\<close>

definition example_source_ok :: source_db where
  "example_source_ok = example_source\<lparr>src := (src example_source)\<lparr>telemetry := (\<lambda>t. [])\<rparr>\<rparr>"

text \<open>The example store without the attitude and engine rows.\<close>

definition position_only_db :: db where
  "position_only_db =
     example_db\<lparr>telemetry := (\<lambda>t. if t = Position then telemetry example_db Position else [])\<rparr>"

text \<open>
  The example store after a create request for a marker of flight 2, an id that no flight
  has; the request leaves the field \<open>type\<close> out.
\<close>

definition stray_marker_db :: db where
  "stray_marker_db =
     fst (handleCreateMarker
            \<lparr>m_id = 0, m_flight_id = 2, m_time = 5, m_label = ''stray'', m_type = []\<rparr>
            example_db)"

section \<open>Properties of the header detection\<close>

lemma Contains_sublist: "Contains s substr \<longleftrightarrow> sublist substr s"
  by (induction s) (auto simp: sublist_Cons_right)

lemma matchesExpected_list_ex:
  "matchesExpected h es = list_ex (\<lambda>keyword. Contains h (ToLower keyword)) es"
  by (induction es) auto

lemma countFound_filter:
  "countFound record n = n + length (filter columnMatches record)"
  by (induction "record" arbitrary: n) (auto simp: matchesExpected_list_ex columnMatches_def)

section \<open>Properties of the statistics\<close>

lemma extractSeries_filter:
  "extractSeries points (a, b, c, d) =
     (a @ filter (\<lambda>v. 0 < v) (map Airspeed points),
      b @ filter (\<lambda>v. v \<noteq> 0) (map IndicatedAltitude points),
      c @ filter (\<lambda>v. v \<noteq> 0) (map Altitude points),
      d @ filter (\<lambda>v. v \<noteq> 0) (map PressureAltitude points))"
  by (induction points arbitrary: a b c d) auto

lemma calculateDataStatistics_Nil: "calculateDataStatistics [] = None"
  by (simp add: calculateDataStatistics_def)

lemma calculateDataStatistics_Count:
  "calculateDataStatistics xs = Some s \<Longrightarrow> Count s = length xs"
  by (auto simp: calculateDataStatistics_def Let_def split: if_splits)

lemma calculateDataStatistics_defined:
  "xs \<noteq> [] \<Longrightarrow> \<exists>s. calculateDataStatistics xs = Some s"
  by (simp add: calculateDataStatistics_def Let_def)

lemma quickSort_example: "quickSort [100, - 50] 0 1 = [- 50, 100]"
  by code_simp

lemma sqrt_5625: "sqrt 5625 = 75"
  by (rule real_sqrt_unique) simp_all

lemma calculateDataStatistics_example:
  "calculateDataStatistics [100, - 50] =
     Some \<lparr>Count = 2, Mean = 25, Variance = 5625, StdDev = 75,
           Min_val = - 50, Max_val = 100, Range = 150, Median = 25\<rparr>"
  by (simp add: calculateDataStatistics_def Let_def quickSort_example sqrt_5625)

lemma aircraftStatistics_filter:
  "aircraftStatistics points =
     \<lparr>AirspeedStats = calculateDataStatistics (filter (\<lambda>v. 0 < v) (map Airspeed points)),
      IndicatedAltitudeStats =
        calculateDataStatistics (filter (\<lambda>v. v \<noteq> 0) (map IndicatedAltitude points)),
      AltitudeStats = calculateDataStatistics (filter (\<lambda>v. v \<noteq> 0) (map Altitude points)),
      PressureAltitudeStats =
        calculateDataStatistics (filter (\<lambda>v. v \<noteq> 0) (map PressureAltitude points))\<rparr>"
  by (simp add: aircraftStatistics_def extractSeries_filter calculateDataStatistics_Nil)

section \<open>Properties of the marker operations\<close>

lemma count_markers_insert:
  "count_markers (fst (insert_marker fid t l ty d)) fid' ty' =
     count_markers d fid' ty'
       + (if fid = fid' \<and> (case ty of None \<Rightarrow> ''regular'' | Some x \<Rightarrow> x) = ty' then 1 else 0)"
  by (simp add: count_markers_def insert_marker_def Let_def)

lemma count_markers_update:
  "count_markers (d\<lparr>markers := map (\<lambda>m. if m_id m = i then m\<lparr>m_time := t, m_label := l\<rparr> else m)
       (markers d)\<rparr>) fid ty = count_markers d fid ty"
proof -
  have "length (filter (\<lambda>m. m_flight_id m = fid \<and> m_type m = ty)
          (map (\<lambda>m. if m_id m = i then m\<lparr>m_time := t, m_label := l\<rparr> else m) ms))
        = length (filter (\<lambda>m. m_flight_id m = fid \<and> m_type m = ty) ms)" for ms
    by (induction ms) auto
  then show ?thesis unfolding count_markers_def by simp
qed

text \<open>The dedicated operation keeps the bound: it updates the marker of the type if there is one.\<close>

lemma createOrUpdateTrimMarker_trim_bound:
  assumes "trim_bound d"
  shows "trim_bound (fst (createOrUpdateTrimMarker flightID markerType time label d))"
proof (cases "markerType \<noteq> ''trim_start'' \<and> markerType \<noteq> ''trim_end''")
  case True
  with assms show ?thesis by (simp add: createOrUpdateTrimMarker_def)
next
  case ty: False
  show ?thesis
  proof (cases "filter (\<lambda>m. m_flight_id m = flightID \<and> m_type m = markerType) (markers d)")
    case Nil
    then have zero: "count_markers d flightID markerType = 0"
      by (simp add: count_markers_def)
    from ty have ne: "markerType \<noteq> []" by auto
    have "fst (createOrUpdateTrimMarker flightID markerType time label d)
          = fst (insert_marker flightID time label (Some markerType) d)"
      using ty Nil ne
      by (auto simp: createOrUpdateTrimMarker_def getTrimMarker_def createMarker_def
          split: prod.splits)
    with assms zero ty show ?thesis
      unfolding trim_bound_def
      by (auto simp: count_markers_insert)
  next
    case (Cons m rest)
    with ty have "fst (createOrUpdateTrimMarker flightID markerType time label d)
          = d\<lparr>markers := map (\<lambda>x. if m_id x = m_id m then x\<lparr>m_time := time, m_label := label\<rparr> else x)
                (markers d)\<rparr>"
      by (auto simp: createOrUpdateTrimMarker_def getTrimMarker_def)
    with assms show ?thesis
      unfolding trim_bound_def by (simp add: count_markers_update)
  qed
qed

section \<open>Properties of the request checks\<close>


section \<open>Properties of the store operations\<close>

lemma all_tables_UNIV [simp]: "t \<in> set all_tables"
  by (cases t) (simp_all add: all_tables_def)

lemma next_rowid_fresh: "next_rowid ids \<notin> set ids"
proof
  assume a: "next_rowid ids \<in> set ids"
  then have "ids \<noteq> []" by auto
  with a have "Max (set ids) + 1 \<in> set ids" by (simp add: next_rowid_def)
  then have "Max (set ids) + 1 \<le> Max (set ids)" by (intro Max_ge) simp_all
  then show False by simp
qed

lemma filter_key_singleton:
  "distinct (map f xs) \<Longrightarrow> x \<in> set xs \<Longrightarrow> filter (\<lambda>y. f y = f x) xs = [x]"
proof (induction xs)
  case Nil
  then show ?case by simp
next
  case (Cons y ys)
  show ?case
  proof (cases "x = y")
    case True
    from Cons.prems(1) have "f y \<notin> f ` set ys" by simp
    then have "\<forall>z \<in> set ys. f z \<noteq> f y" by (metis image_eqI)
    then have "filter (\<lambda>z. f z = f y) ys = []" by (simp add: filter_empty_conv)
    with True show ?thesis by simp
  next
    case False
    with Cons.prems have "x \<in> set ys" and "f y \<noteq> f x" by auto
    with Cons show ?thesis by simp
  qed
qed

lemma mk_row_sel [simp]:
  "t_aircraft_id (mk_row a p) = a" "timestamp (mk_row a p) = fst p" "t_cols (mk_row a p) = snd p"
  by (simp_all add: mk_row_def)

lemma append_rows_simps [simp]:
  "flight (append_rows t rows d) = flight d"
  "aircraft (append_rows t rows d) = aircraft d"
  "markers (append_rows t rows d) = markers d"
  "markers_seq (append_rows t rows d) = markers_seq d"
  "telemetry (append_rows t rows d) t' = (if t' = t then telemetry d t @ rows else telemetry d t')"
  by (simp_all add: append_rows_def)

lemma append_rows_Nil [simp]: "append_rows t [] d = d"
  by (simp add: append_rows_def)

lemma append_rows_append:
  "append_rows t ys (append_rows t xs d) = append_rows t (xs @ ys) d"
  by (simp add: append_rows_def)

lemma select_series_rows_of: "select_series t d a = sort_key timestamp (rows_of t d a)"
  by (simp add: select_series_def rows_of_def)

lemma insert_telemetry_eq:
  "insert_telemetry t a ts cols d =
     (if \<exists>r \<in> set (rows_of t d a). timestamp r = ts then Inl ErrUnique
      else Inr (append_rows t [mk_row a (ts, cols)] d))"
  by (auto simp: insert_telemetry_def rows_of_def append_rows_def mk_row_def list_ex_iff)

lemma rows_of_append_rows:
  "rows_of t' (append_rows t rows d) a =
     (if t' = t then rows_of t d a @ filter (\<lambda>r. t_aircraft_id r = a) rows else rows_of t' d a)"
  by (simp add: rows_of_def)

text \<open>The insert loop succeeds exactly when no primary key is repeated.\<close>

lemma insert_series_eq:
  "insert_series t a rows d =
     (if distinct (map fst rows) \<and> (\<forall>r \<in> set (rows_of t d a). timestamp r \<notin> fst ` set rows)
      then Inr (append_rows t (map (mk_row a) rows) d) else Inl ErrUnique)"
proof (induction rows arbitrary: d)
  case Nil
  show ?case by simp
next
  case (Cons p rows)
  obtain ts cols where p: "p = (ts, cols)" by (cases p)
  show ?case
  proof (cases "\<exists>r \<in> set (rows_of t d a). timestamp r = ts")
    case True
    then show ?thesis by (auto simp: p insert_telemetry_eq)
  next
    case False
    have "rows_of t (append_rows t [mk_row a (ts, cols)] d) a = rows_of t d a @ [mk_row a (ts, cols)]"
      by (simp add: rows_of_append_rows)
    with False show ?thesis
      by (auto simp: p insert_telemetry_eq Cons.IH append_rows_append image_iff)
  qed
qed

lemma next_rowid_map_fresh: "x \<in> set xs \<Longrightarrow> f x \<noteq> next_rowid (map f xs)"
  using next_rowid_fresh [of "map f xs"] by force

lemma wf_add_aircraft:
  assumes wf: "wf_db d" and seq: "seqNr \<noteq> None" and fl: "flightID \<in> f_id ` set (flight d)"
    and noclash: "\<forall>a \<in> set (aircraft d). a_flight_id a = flightID \<longrightarrow> a_seq_nr a \<noteq> seqNr"
  shows "wf_db (d\<lparr>aircraft := aircraft d @
            [\<lparr>a_id = next_rowid (map a_id (aircraft d)), a_flight_id = flightID, a_seq_nr = seqNr,
              a_type = ty, a_cols = cols\<rparr>]\<rparr>)"
proof -
  have fresh: "next_rowid (map a_id (aircraft d)) \<notin> a_id ` set (aircraft d)"
    using next_rowid_fresh [of "map a_id (aircraft d)"] by simp
  from noclash have "(flightID, seqNr) \<notin> (\<lambda>a. (a_flight_id a, a_seq_nr a)) ` set (aircraft d)"
    by auto
  with wf seq fl fresh show ?thesis
    unfolding wf_db_def by auto
qed

lemma wf_append_rows:
  assumes wf: "wf_db d" and a: "a \<in> a_id ` set (aircraft d)"
    and dist: "distinct (map fst out)"
    and noclash: "\<forall>r \<in> set (rows_of t d a). timestamp r \<notin> fst ` set out"
  shows "wf_db (append_rows t (map (mk_row a) out) d)"
proof -
  have d1: "distinct (map (\<lambda>x. (a, fst x)) out)"
    using dist by (simp add: distinct_map inj_on_def)
  have d2: "(\<lambda>r. (t_aircraft_id r, timestamp r)) ` set (telemetry d t)
            \<inter> (\<lambda>x. (a, fst x)) ` set out = {}"
    using noclash by (force simp: rows_of_def)
  from wf have "distinct (map (\<lambda>r. (t_aircraft_id r, timestamp r)) (telemetry d t))"
    unfolding wf_db_def by simp
  with d1 d2 have "distinct (map (\<lambda>r. (t_aircraft_id r, timestamp r))
                     (telemetry d t @ map (mk_row a) out))"
    by (simp add: comp_def)
  with wf a show ?thesis
    unfolding wf_db_def by auto
qed

lemma duplicate_copy_series:
  "duplicatePositionData tx orig new = copy_series sel_all Position tx orig new"
  "duplicateAttitudeData tx orig new = copy_series sel_all Attitude tx orig new"
  "duplicateEngineData tx orig new = copy_series sel_all Engine tx orig new"
  by (simp_all add: duplicatePositionData_def duplicateAttitudeData_def duplicateEngineData_def
      copy_series_def sel_all_def select_series_rows_of)

lemma min_timestamp_rows_of:
  "min_timestamp t tx a =
     (if rows_of t tx a = [] then Inl ErrScanNull
      else Inr (Min (set (map timestamp (rows_of t tx a)))))"
proof (cases "rows_of t tx a")
  case Nil
  then show ?thesis by (simp add: min_timestamp_def rows_of_def)
next
  case (Cons r rest)
  then have "filter (\<lambda>r. t_aircraft_id r = a) (telemetry tx t) = r # rest"
    by (simp add: rows_of_def)
  with Cons show ?thesis by (simp add: min_timestamp_def)
qed

lemma trimmed_copy_series:
  "duplicatePositionDataTrimmed tx orig new s e = copy_series (sel_trim s e) Position tx orig new"
  "duplicateAttitudeDataTrimmed tx orig new s e = copy_series (sel_trim s e) Attitude tx orig new"
  "duplicateEngineDataTrimmed tx orig new s e = copy_series (sel_trim s e) Engine tx orig new"
  by (simp_all add: duplicatePositionDataTrimmed_def duplicateAttitudeDataTrimmed_def
      duplicateEngineDataTrimmed_def copy_series_def sel_trim_def select_series_rows_of
      min_timestamp_rows_of Let_def)

lemma duplicateAircraftLoop_copy:
  "duplicateAircraftLoop tx acs new = copyAircraftLoop sel_all tx acs new"
  by (induction acs arbitrary: tx)
     (auto simp: duplicate_copy_series split: sum.splits prod.splits)

lemma trimAircraftLoop_copy:
  "trimAircraftLoop tx acs new s e = copyAircraftLoop (sel_trim s e) tx acs new"
  by (induction acs arbitrary: tx)
     (auto simp: trimmed_copy_series split: sum.splits prod.splits)

lemma copied_simps [simp]:
  "flight (copied tx ac new out) = flight tx"
  "markers (copied tx ac new out) = markers tx"
  "markers_seq (copied tx ac new out) = markers_seq tx"
  "aircraft (copied tx ac new out) = aircraft tx @ [new_aircraft tx ac new]"
  by (simp_all add: copied_def Let_def)

lemma new_aircraft_simps [simp]:
  "a_id (new_aircraft tx ac new) = next_rowid (map a_id (aircraft tx))"
  "a_flight_id (new_aircraft tx ac new) = new"
  "a_seq_nr (new_aircraft tx ac new) = a_seq_nr ac"
  "a_type (new_aircraft tx ac new) = a_type ac"
  "a_cols (new_aircraft tx ac new) = a_cols ac"
  by (simp_all add: new_aircraft_def)

lemma rows_of_fresh:
  assumes "wf_db tx" and "a \<notin> a_id ` set (aircraft tx)"
  shows "rows_of t tx a = []"
proof -
  from assms(1) have "\<forall>r \<in> set (telemetry tx t). t_aircraft_id r \<in> a_id ` set (aircraft tx)"
    unfolding wf_db_def by simp
  with assms(2) show ?thesis
    by (auto simp: rows_of_def filter_empty_conv)
qed

lemma rows_of_aircraft_update [simp]:
  "rows_of t (tx\<lparr>aircraft := as\<rparr>) a = rows_of t tx a"
  by (simp add: rows_of_def)

lemma rows_of_copied_other:
  "a \<noteq> next_rowid (map a_id (aircraft tx)) \<Longrightarrow> rows_of t (copied tx ac new out) a = rows_of t tx a"
  by (simp add: copied_def Let_def rows_of_append_rows filter_empty_conv)

lemma rows_of_copied_new:
  assumes "wf_db tx" and "t \<in> {Position, Attitude, Engine}"
  shows "rows_of t (copied tx ac new out) (next_rowid (map a_id (aircraft tx)))
         = map (mk_row (next_rowid (map a_id (aircraft tx)))) (out t)"
proof -
  have "next_rowid (map a_id (aircraft tx)) \<notin> a_id ` set (aircraft tx)"
    using next_rowid_fresh [of "map a_id (aircraft tx)"] by simp
  with assms(1) have "rows_of t' tx (next_rowid (map a_id (aircraft tx))) = []" for t'
    by (rule rows_of_fresh)
  with assms(2) show ?thesis
    by (auto simp: copied_def Let_def rows_of_append_rows)
qed

lemma copied_wf:
  assumes wf: "wf_db tx" and fl: "new \<in> f_id ` set (flight tx)" and acin: "ac \<in> set (aircraft tx)"
    and noclash: "\<forall>a \<in> set (aircraft tx). a_flight_id a = new \<longrightarrow> a_seq_nr a \<noteq> a_seq_nr ac"
    and dist: "\<forall>t \<in> {Position, Attitude, Engine}. distinct (map fst (out t))"
  shows "wf_db (copied tx ac new out)"
proof -
  let ?n = "next_rowid (map a_id (aircraft tx))"
  let ?tx1 = "tx\<lparr>aircraft := aircraft tx @ [new_aircraft tx ac new]\<rparr>"
  have fresh: "?n \<notin> a_id ` set (aircraft tx)"
    using next_rowid_fresh [of "map a_id (aircraft tx)"] by simp
  from wf acin have seq: "a_seq_nr ac \<noteq> None" unfolding wf_db_def by blast
  have wf1: "wf_db ?tx1"
    unfolding new_aircraft_def using wf seq fl noclash by (rule wf_add_aircraft)
  have nin: "?n \<in> a_id ` set (aircraft ?tx1)" by simp
  have empty: "rows_of t tx ?n = []" for t
    using wf fresh by (rule rows_of_fresh)
  let ?tx2 = "append_rows Position (map (mk_row ?n) (out Position)) ?tx1"
  let ?tx3 = "append_rows Attitude (map (mk_row ?n) (out Attitude)) ?tx2"
  have dP: "distinct (map fst (out Position))" and dA: "distinct (map fst (out Attitude))"
    and dE: "distinct (map fst (out Engine))"
    using dist by simp_all
  have eP: "\<forall>r \<in> set (rows_of Position ?tx1 ?n). timestamp r \<notin> fst ` set (out Position)"
    using empty by simp
  have wf2: "wf_db ?tx2"
    by (rule wf_append_rows [OF wf1 nin dP eP])
  have nin2: "?n \<in> a_id ` set (aircraft ?tx2)" by simp
  have eA: "\<forall>r \<in> set (rows_of Attitude ?tx2 ?n). timestamp r \<notin> fst ` set (out Attitude)"
    using empty by (simp add: rows_of_append_rows)
  have wf3: "wf_db ?tx3"
    by (rule wf_append_rows [OF wf2 nin2 dA eA])
  have nin3: "?n \<in> a_id ` set (aircraft ?tx3)" by simp
  have eE: "\<forall>r \<in> set (rows_of Engine ?tx3 ?n). timestamp r \<notin> fst ` set (out Engine)"
    using empty by (simp add: rows_of_append_rows)
  have "wf_db (append_rows Engine (map (mk_row ?n) (out Engine)) ?tx3)"
    by (rule wf_append_rows [OF wf3 nin3 dE eE])
  then show ?thesis by (simp add: copied_def Let_def)
qed

lemma copy_step:
  assumes wf: "wf_db tx" and fl: "new \<in> f_id ` set (flight tx)" and acin: "ac \<in> set (aircraft tx)"
    and noclash: "\<forall>a \<in> set (aircraft tx). a_flight_id a = new \<longrightarrow> a_seq_nr a \<noteq> a_seq_nr ac"
    and sel: "\<forall>t \<in> {Position, Attitude, Engine}. sel (rows_of t tx (a_id ac)) = Inr (out t)"
    and dist: "\<forall>t \<in> {Position, Attitude, Engine}. distinct (map fst (out t))"
  shows "copyAircraftLoop sel tx (ac # rest) new = copyAircraftLoop sel (copied tx ac new out) rest new"
proof -
  let ?n = "next_rowid (map a_id (aircraft tx))"
  let ?tx1 = "tx\<lparr>aircraft := aircraft tx @ [new_aircraft tx ac new]\<rparr>"
  from wf have "distinct (map a_id (aircraft tx))" unfolding wf_db_def by simp
  then have single: "filter (\<lambda>a. a_id a = a_id ac) (aircraft tx) = [ac]"
    using acin by (rule filter_key_singleton)
  from wf acin have seq: "a_seq_nr ac \<noteq> None" unfolding wf_db_def by blast
  from noclash have nc: "\<not> list_ex (\<lambda>a. a_flight_id a = new \<and> a_seq_nr a = a_seq_nr ac) (aircraft tx)"
    by (auto simp: list_ex_iff)
  have rec: "duplicateAircraftRecord tx ac new = Inr (?tx1, ?n)"
    using seq nc
    by (simp add: duplicateAircraftRecord_def single insert_aircraft_def Let_def new_aircraft_def)
  have fresh: "?n \<notin> a_id ` set (aircraft tx)"
    using next_rowid_fresh [of "map a_id (aircraft tx)"] by simp
  have empty: "rows_of t tx ?n = []" for t
    using wf fresh by (rule rows_of_fresh)
  let ?tx2 = "append_rows Position (map (mk_row ?n) (out Position)) ?tx1"
  let ?tx3 = "append_rows Attitude (map (mk_row ?n) (out Attitude)) ?tx2"
  let ?tx4 = "append_rows Engine (map (mk_row ?n) (out Engine)) ?tx3"
  have p: "copy_series sel Position ?tx1 (a_id ac) ?n = Inr ?tx2"
    using sel dist empty by (simp add: copy_series_def insert_series_eq)
  have a: "copy_series sel Attitude ?tx2 (a_id ac) ?n = Inr ?tx3"
    using sel dist empty by (simp add: copy_series_def insert_series_eq rows_of_append_rows)
  have e: "copy_series sel Engine ?tx3 (a_id ac) ?n = Inr ?tx4"
    using sel dist empty by (simp add: copy_series_def insert_series_eq rows_of_append_rows)
  have "copied tx ac new out = ?tx4" by (simp add: copied_def Let_def)
  with rec p a e show ?thesis by simp
qed

lemma copyAircraftLoop_ok:
  assumes wf: "wf_db tx" and fl: "new \<in> f_id ` set (flight tx)"
    and sub: "set acs \<subseteq> set (aircraft tx)"
    and dseq: "distinct (map a_seq_nr acs)"
    and noclash: "\<forall>a \<in> set (aircraft tx). a_flight_id a = new \<longrightarrow> a_seq_nr a \<notin> a_seq_nr ` set acs"
    and sel: "\<forall>ac \<in> set acs. \<forall>t \<in> {Position, Attitude, Engine}.
                \<exists>out. sel (rows_of t tx (a_id ac)) = Inr out \<and> distinct (map fst out)"
  shows "\<exists>tx' news. copyAircraftLoop sel tx acs new = Inr tx' \<and> wf_db tx'
      \<and> flight tx' = flight tx \<and> markers tx' = markers tx \<and> markers_seq tx' = markers_seq tx
      \<and> aircraft tx' = aircraft tx @ news
      \<and> (\<forall>t. \<forall>a \<in> a_id ` set (aircraft tx). rows_of t tx' a = rows_of t tx a)
      \<and> list_all2 (copy_of sel tx tx' new) acs news"
  using assms
proof (induction acs arbitrary: tx)
  case Nil
  then show ?case by simp
next
  case (Cons ac rest)
  let ?n = "next_rowid (map a_id (aircraft tx))"
  define out where "out t = projr (sel (rows_of t tx (a_id ac)))" for t
  from Cons.prems(6) have out: "\<forall>t \<in> {Position, Attitude, Engine}.
      sel (rows_of t tx (a_id ac)) = Inr (out t)"
    and dist: "\<forall>t \<in> {Position, Attitude, Engine}. distinct (map fst (out t))"
    unfolding out_def by force+
  let ?tx4 = "copied tx ac new out"
  have acin: "ac \<in> set (aircraft tx)" using Cons.prems(3) by simp
  have nc: "\<forall>a \<in> set (aircraft tx). a_flight_id a = new \<longrightarrow> a_seq_nr a \<noteq> a_seq_nr ac"
    using Cons.prems(5) by auto
  have step: "copyAircraftLoop sel tx (ac # rest) new = copyAircraftLoop sel ?tx4 rest new"
    using Cons.prems(1,2) acin nc out dist by (rule copy_step)
  have fresh: "?n \<notin> a_id ` set (aircraft tx)"
    using next_rowid_fresh [of "map a_id (aircraft tx)"] by simp
  have old_rows: "rows_of t ?tx4 a = rows_of t tx a" if "a \<in> a_id ` set (aircraft tx)" for t a
    using that by (intro rows_of_copied_other) (auto simp: next_rowid_map_fresh)
  have wf4: "wf_db ?tx4"
    using Cons.prems(1,2) acin nc dist by (rule copied_wf)
  have fl4: "new \<in> f_id ` set (flight ?tx4)" using Cons.prems(2) by simp
  have sub4: "set rest \<subseteq> set (aircraft ?tx4)" using Cons.prems(3) by auto
  have dseq4: "distinct (map a_seq_nr rest)" using Cons.prems(4) by simp
  have nc4: "\<forall>a \<in> set (aircraft ?tx4). a_flight_id a = new \<longrightarrow> a_seq_nr a \<notin> a_seq_nr ` set rest"
    using Cons.prems(4,5) by auto
  have sel4: "\<forall>ac' \<in> set rest. \<forall>t \<in> {Position, Attitude, Engine}.
                \<exists>out. sel (rows_of t ?tx4 (a_id ac')) = Inr out \<and> distinct (map fst out)"
  proof (intro ballI)
    fix ac' t assume a: "ac' \<in> set rest" and t: "t \<in> {Position, Attitude, Engine}"
    from a Cons.prems(3) have "a_id ac' \<in> a_id ` set (aircraft tx)" by auto
    then have eq: "rows_of t ?tx4 (a_id ac') = rows_of t tx (a_id ac')" by (rule old_rows)
    from a have "ac' \<in> set (ac # rest)" by simp
    with Cons.prems(6) t
    have "\<exists>out. sel (rows_of t tx (a_id ac')) = Inr out \<and> distinct (map fst out)"
      by blast
    then show "\<exists>out. sel (rows_of t ?tx4 (a_id ac')) = Inr out \<and> distinct (map fst out)"
      by (simp only: eq)
  qed
  from Cons.IH [OF wf4 fl4 sub4 dseq4 nc4 sel4]
  obtain tx' news where res: "copyAircraftLoop sel ?tx4 rest new = Inr tx'" and wf': "wf_db tx'"
    and same: "flight tx' = flight ?tx4" "markers tx' = markers ?tx4"
      "markers_seq tx' = markers_seq ?tx4"
    and ac': "aircraft tx' = aircraft ?tx4 @ news"
    and rows': "\<forall>t. \<forall>a \<in> a_id ` set (aircraft ?tx4). rows_of t tx' a = rows_of t ?tx4 a"
    and rel: "list_all2 (copy_of sel ?tx4 tx' new) rest news"
    by blast
  have r1: "\<forall>t. \<forall>a \<in> a_id ` set (aircraft tx). rows_of t tx' a = rows_of t tx a"
  proof (intro allI ballI)
    fix t a assume a: "a \<in> a_id ` set (aircraft tx)"
    then have "a \<in> a_id ` set (aircraft ?tx4)" by auto
    with rows' have "rows_of t tx' a = rows_of t ?tx4 a" by blast
    with old_rows [OF a] show "rows_of t tx' a = rows_of t tx a" by simp
  qed
  have head: "copy_of sel tx tx' new ac (new_aircraft tx ac new)"
  proof -
    have "rows_of t tx' ?n = map (mk_row ?n) (out t)" if "t \<in> {Position, Attitude, Engine}" for t
    proof -
      have "?n \<in> a_id ` set (aircraft ?tx4)" by simp
      with rows' have "rows_of t tx' ?n = rows_of t ?tx4 ?n" by blast
      with rows_of_copied_new [OF Cons.prems(1) that] show ?thesis by simp
    qed
    with out fresh show ?thesis
      unfolding copy_of_def by simp
  qed
  have tail: "list_all2 (copy_of sel tx tx' new) rest news"
    using rel
  proof (rule list.rel_mono_strong)
    fix a n assume a: "a \<in> set rest" and c: "copy_of sel ?tx4 tx' new a n"
    from a Cons.prems(3) have "a_id a \<in> a_id ` set (aircraft tx)" by auto
    then have "rows_of t ?tx4 (a_id a) = rows_of t tx (a_id a)" for t by (rule old_rows)
    with c show "copy_of sel tx tx' new a n"
      unfolding copy_of_def by auto
  qed
  from step res wf' same ac' r1 head tail show ?case
    by (intro exI [of _ tx'] exI [of _ "new_aircraft tx ac new # news"]) simp
qed

lemma rows_of_distinct:
  assumes "wf_db d"
  shows "distinct (map timestamp (rows_of t d a))"
proof -
  from assms have "distinct (map (\<lambda>r. (t_aircraft_id r, timestamp r)) (telemetry d t))"
    unfolding wf_db_def by simp
  then have "distinct (map (\<lambda>r. (t_aircraft_id r, timestamp r)) (rows_of t d a))"
    unfolding rows_of_def by (rule distinct_map_filter)
  moreover have "map (\<lambda>r. (t_aircraft_id r, timestamp r)) (rows_of t d a)
                 = map (\<lambda>ts. (a, ts)) (map timestamp (rows_of t d a))"
    by (simp add: rows_of_def)
  ultimately show ?thesis
    by (metis distinct_map)
qed

lemma distinct_map_sort_key:
  "distinct (map f xs) \<Longrightarrow> distinct (map f (sort_key f xs))"
  by (simp add: distinct_map)

lemma sel_all_ok:
  "distinct (map timestamp rows) \<Longrightarrow> \<exists>out. sel_all rows = Inr out \<and> distinct (map fst out)"
  by (simp add: sel_all_def comp_def distinct_map_sort_key)

lemma sel_trim_ok:
  assumes "rows \<noteq> []" and "distinct (map timestamp rows)"
  shows "\<exists>out. sel_trim s e rows = Inr out \<and> distinct (map fst out)"
proof -
  from assms(2) have "distinct (map timestamp (sort_key timestamp rows))"
    by (rule distinct_map_sort_key)
  then have "distinct (map timestamp (filter P (sort_key timestamp rows)))" for P
    by (rule distinct_map_filter)
  then have "distinct (map (\<lambda>r. timestamp r - k) (filter P (sort_key timestamp rows)))"
    for P and k :: int
    by (simp add: distinct_map inj_on_def)
  with assms(1) show ?thesis
    by (simp add: sel_trim_def Let_def comp_def)
qed

lemma wf_add_flight:
  assumes "wf_db d" and "seqNr \<noteq> None"
  shows "wf_db (d\<lparr>flight := flight d @
           [\<lparr>f_id = next_rowid (map f_id (flight d)), f_title = ttl, f_flight_number = number,
             f_start_zulu_sim_time = startZulu, f_end_zulu_sim_time = endZulu,
             f_user_aircraft_seq_nr = seqNr, f_cols = cols\<rparr>]\<rparr>)"
proof -
  have "next_rowid (map f_id (flight d)) \<notin> f_id ` set (flight d)"
    using next_rowid_fresh [of "map f_id (flight d)"] by simp
  with assms show ?thesis
    unfolding wf_db_def by auto
qed

lemma duplicateFlightRecord_ok:
  assumes wf: "wf_db d" and f: "f \<in> set (flight d)"
  shows "duplicateFlightRecord d (f_id f) newTitle
         = Inr (d\<lparr>flight := flight d @ [new_flight d f newTitle]\<rparr>, next_rowid (map f_id (flight d)))"
    and "wf_db (d\<lparr>flight := flight d @ [new_flight d f newTitle]\<rparr>)"
proof -
  from wf have "distinct (map f_id (flight d))" unfolding wf_db_def by simp
  then have single: "filter (\<lambda>x. f_id x = f_id f) (flight d) = [f]"
    using f by (rule filter_key_singleton)
  from wf f have seq: "f_user_aircraft_seq_nr f \<noteq> None" unfolding wf_db_def by blast
  then show "duplicateFlightRecord d (f_id f) newTitle
         = Inr (d\<lparr>flight := flight d @ [new_flight d f newTitle]\<rparr>, next_rowid (map f_id (flight d)))"
    by (simp add: duplicateFlightRecord_def single insert_flight_def Let_def new_flight_def)
  show "wf_db (d\<lparr>flight := flight d @ [new_flight d f newTitle]\<rparr>)"
    unfolding new_flight_def using wf seq by (rule wf_add_flight)
qed

lemma duplicateFlightRecord_missing:
  "flightID \<notin> f_id ` set (flight d) \<Longrightarrow> duplicateFlightRecord d flightID newTitle = Inl ErrNoRows"
proof -
  assume "flightID \<notin> f_id ` set (flight d)"
  then have "filter (\<lambda>x. f_id x = flightID) (flight d) = []"
    by (auto simp: filter_empty_conv)
  then show ?thesis by (simp add: duplicateFlightRecord_def)
qed

lemma select_aircraft_seq_distinct:
  assumes "wf_db d"
  shows "distinct (map a_seq_nr (select_aircraft d flightID))"
proof -
  from assms have "distinct (map (\<lambda>a. (a_flight_id a, a_seq_nr a)) (aircraft d))"
    unfolding wf_db_def by simp
  then have "distinct (map (\<lambda>a. (a_flight_id a, a_seq_nr a)) (select_aircraft d flightID))"
    unfolding select_aircraft_def by (rule distinct_map_filter)
  moreover have "map (\<lambda>a. (a_flight_id a, a_seq_nr a)) (select_aircraft d flightID)
                 = map (\<lambda>s. (flightID, s)) (map a_seq_nr (select_aircraft d flightID))"
    by (simp add: select_aircraft_def)
  ultimately show ?thesis
    by (metis distinct_map)
qed

lemma copy_aircraft_ok:
  assumes wf: "wf_db d" and f: "f \<in> set (flight d)"
    and sel: "\<forall>ac \<in> set (select_aircraft d (f_id f)). \<forall>t \<in> {Position, Attitude, Engine}.
                \<exists>out. sel (rows_of t d (a_id ac)) = Inr out \<and> distinct (map fst out)"
  shows "\<exists>tx2 news.
      copyAircraftLoop sel (d\<lparr>flight := flight d @ [new_flight d f newTitle]\<rparr>)
        (select_aircraft d (f_id f)) (next_rowid (map f_id (flight d))) = Inr tx2
      \<and> wf_db tx2
      \<and> flight tx2 = flight d @ [new_flight d f newTitle]
      \<and> markers tx2 = markers d \<and> markers_seq tx2 = markers_seq d
      \<and> aircraft tx2 = aircraft d @ news
      \<and> (\<forall>t. \<forall>a \<in> a_id ` set (aircraft d). rows_of t tx2 a = rows_of t d a)
      \<and> list_all2 (copy_of sel d tx2 (next_rowid (map f_id (flight d))))
           (select_aircraft d (f_id f)) news"
proof -
  let ?new = "next_rowid (map f_id (flight d))"
  let ?tx1 = "d\<lparr>flight := flight d @ [new_flight d f newTitle]\<rparr>"
  have wf1: "wf_db ?tx1" using wf f by (rule duplicateFlightRecord_ok(2))
  have fl: "?new \<in> f_id ` set (flight ?tx1)" by (simp add: new_flight_def)
  have sub: "set (select_aircraft d (f_id f)) \<subseteq> set (aircraft ?tx1)"
    by (auto simp: select_aircraft_def)
  have dseq: "distinct (map a_seq_nr (select_aircraft d (f_id f)))"
    using wf by (rule select_aircraft_seq_distinct)
  have fresh: "?new \<notin> f_id ` set (flight d)"
    using next_rowid_fresh [of "map f_id (flight d)"] by simp
  from wf have "\<forall>a \<in> set (aircraft d). a_flight_id a \<in> f_id ` set (flight d)"
    unfolding wf_db_def by simp
  with fresh have none: "\<forall>a \<in> set (aircraft d). a_flight_id a \<noteq> ?new" by metis
  then have nc: "\<forall>a \<in> set (aircraft ?tx1). a_flight_id a = ?new
                   \<longrightarrow> a_seq_nr a \<notin> a_seq_nr ` set (select_aircraft d (f_id f))"
    by simp
  have rows1: "rows_of t ?tx1 a = rows_of t d a" for t a by (simp add: rows_of_def)
  have sel1: "\<forall>ac \<in> set (select_aircraft d (f_id f)). \<forall>t \<in> {Position, Attitude, Engine}.
                \<exists>out. sel (rows_of t ?tx1 (a_id ac)) = Inr out \<and> distinct (map fst out)"
    using sel by (simp only: rows1)
  from copyAircraftLoop_ok [OF wf1 fl sub dseq nc sel1]
  obtain tx2 news where "copyAircraftLoop sel ?tx1 (select_aircraft d (f_id f)) ?new = Inr tx2"
    "wf_db tx2" "flight tx2 = flight ?tx1" "markers tx2 = markers ?tx1"
    "markers_seq tx2 = markers_seq ?tx1" "aircraft tx2 = aircraft ?tx1 @ news"
    "\<forall>t. \<forall>a \<in> a_id ` set (aircraft ?tx1). rows_of t tx2 a = rows_of t ?tx1 a"
    "list_all2 (copy_of sel ?tx1 tx2 ?new) (select_aircraft d (f_id f)) news"
    by blast
  moreover have "copy_of sel ?tx1 tx2 ?new = copy_of sel d tx2 ?new"
    by (intro ext) (simp add: copy_of_def rows1)
  ultimately show ?thesis
    by (intro exI [of _ tx2] exI [of _ news]) (simp add: rows1)
qed

lemma insert_marker_simps [simp]:
  "flight (fst (insert_marker fid t l ty d)) = flight d"
  "aircraft (fst (insert_marker fid t l ty d)) = aircraft d"
  "telemetry (fst (insert_marker fid t l ty d)) = telemetry d"
  by (simp_all add: insert_marker_def Let_def)

lemma insert_marker_markers:
  "\<exists>m. markers (fst (insert_marker fid t l ty d)) = markers d @ [m]
       \<and> m_flight_id m = fid \<and> m_time m = t \<and> m_label m = l
       \<and> m_type m = (case ty of None \<Rightarrow> ''regular'' | Some x \<Rightarrow> x)"
  by (simp add: insert_marker_def Let_def)

lemma insert_markers_default_props:
  "\<exists>ms. markers (insert_markers_default new rows tx) = markers tx @ ms
     \<and> map (\<lambda>m. (m_time m, m_label m)) ms = rows
     \<and> (\<forall>m \<in> set ms. m_flight_id m = new \<and> m_type m = ''regular'')
     \<and> flight (insert_markers_default new rows tx) = flight tx
     \<and> aircraft (insert_markers_default new rows tx) = aircraft tx
     \<and> telemetry (insert_markers_default new rows tx) = telemetry tx"
proof (induction rows arbitrary: tx)
  case Nil
  show ?case by simp
next
  case (Cons p rows)
  obtain t l where p: "p = (t, l)" by (cases p)
  let ?tx = "fst (insert_marker new t l None tx)"
  from insert_marker_markers [of new t l None tx]
  obtain m where m: "markers ?tx = markers tx @ [m]" "m_flight_id m = new" "m_time m = t"
    "m_label m = l" "m_type m = ''regular''"
    by auto
  from Cons.IH [of ?tx]
  obtain ms where ms: "markers (insert_markers_default new rows ?tx) = markers ?tx @ ms"
    "map (\<lambda>m. (m_time m, m_label m)) ms = rows"
    "\<forall>m \<in> set ms. m_flight_id m = new \<and> m_type m = ''regular''"
    "flight (insert_markers_default new rows ?tx) = flight ?tx"
    "aircraft (insert_markers_default new rows ?tx) = aircraft ?tx"
    "telemetry (insert_markers_default new rows ?tx) = telemetry ?tx"
    by blast
  with m show ?case
    by (intro exI [of _ "m # ms"]) (simp add: p)
qed

lemma insert_markers_typed_props:
  "\<exists>ms. markers (insert_markers_typed new rows tx) = markers tx @ ms
     \<and> map (\<lambda>m. (m_time m, m_label m, m_type m)) ms = rows
     \<and> (\<forall>m \<in> set ms. m_flight_id m = new)
     \<and> flight (insert_markers_typed new rows tx) = flight tx
     \<and> aircraft (insert_markers_typed new rows tx) = aircraft tx
     \<and> telemetry (insert_markers_typed new rows tx) = telemetry tx"
proof (induction rows arbitrary: tx)
  case Nil
  show ?case by simp
next
  case (Cons p rows)
  obtain t l ty where p: "p = (t, l, ty)" by (cases p)
  let ?tx = "fst (insert_marker new t l (Some ty) tx)"
  from insert_marker_markers [of new t l "Some ty" tx]
  obtain m where m: "markers ?tx = markers tx @ [m]" "m_flight_id m = new" "m_time m = t"
    "m_label m = l" "m_type m = ty"
    by auto
  from Cons.IH [of ?tx]
  obtain ms where ms: "markers (insert_markers_typed new rows ?tx) = markers ?tx @ ms"
    "map (\<lambda>m. (m_time m, m_label m, m_type m)) ms = rows"
    "\<forall>m \<in> set ms. m_flight_id m = new"
    "flight (insert_markers_typed new rows ?tx) = flight ?tx"
    "aircraft (insert_markers_typed new rows ?tx) = aircraft ?tx"
    "telemetry (insert_markers_typed new rows ?tx) = telemetry ?tx"
    by blast
  with m show ?case
    by (intro exI [of _ "m # ms"]) (simp add: p)
qed

lemma wf_add_markers:
  assumes "wf_db d" and "flight d' = flight d" and "aircraft d' = aircraft d"
    and "telemetry d' = telemetry d" and "markers d' = markers d @ ms"
    and "\<forall>m \<in> set ms. m_flight_id m \<in> f_id ` set (flight d)"
  shows "wf_db d'"
  using assms unfolding wf_db_def by auto

lemma copy_of_cong:
  "telemetry tx'' = telemetry tx' \<Longrightarrow> copy_of sel tx tx'' new = copy_of sel tx tx' new"
  by (intro ext) (simp add: copy_of_def rows_of_def)

text \<open>The loop touches neither the flights nor the markers.\<close>

lemma copy_series_Inr:
  "copy_series sel t tx orig new = Inr tx' \<Longrightarrow>
     flight tx' = flight tx \<and> aircraft tx' = aircraft tx \<and> markers tx' = markers tx
     \<and> markers_seq tx' = markers_seq tx"
  by (auto simp: copy_series_def insert_series_eq split: sum.splits if_splits)

lemma duplicateAircraftRecord_Inr:
  "duplicateAircraftRecord tx ac new = Inr (tx', n) \<Longrightarrow>
     flight tx' = flight tx \<and> markers tx' = markers tx \<and> markers_seq tx' = markers_seq tx"
  by (auto simp: duplicateAircraftRecord_def insert_aircraft_def Let_def
      split: list.splits if_splits)

lemma copyAircraftLoop_Inr:
  "copyAircraftLoop sel tx acs new = Inr tx' \<Longrightarrow>
     flight tx' = flight tx \<and> markers tx' = markers tx \<and> markers_seq tx' = markers_seq tx"
proof (induction acs arbitrary: tx)
  case Nil
  then show ?case by simp
next
  case (Cons ac rest)
  from Cons.prems obtain tx1 n tx2 tx3 tx4 where
    s: "duplicateAircraftRecord tx ac new = Inr (tx1, n)"
      "copy_series sel Position tx1 (a_id ac) n = Inr tx2"
      "copy_series sel Attitude tx2 (a_id ac) n = Inr tx3"
      "copy_series sel Engine tx3 (a_id ac) n = Inr tx4"
      "copyAircraftLoop sel tx4 rest new = Inr tx'"
    by (auto split: sum.splits prod.splits)
  from Cons.IH [OF s(5)] duplicateAircraftRecord_Inr [OF s(1)]
    copy_series_Inr [OF s(2)] copy_series_Inr [OF s(3)] copy_series_Inr [OF s(4)]
  show ?case by simp
qed

lemma duplicateFlightRecord_Inr:
  "duplicateFlightRecord tx flightID newTitle = Inr (tx', n) \<Longrightarrow>
     markers tx' = markers tx \<and> markers_seq tx' = markers_seq tx"
  by (auto simp: duplicateFlightRecord_def insert_flight_def Let_def
      split: list.splits if_splits)

lemma next_flight_fresh: "next_rowid (map f_id (flight d)) \<notin> f_id ` set (flight d)"
  using next_rowid_fresh [of "map f_id (flight d)"] by simp

lemma select_aircraft_new_flight:
  assumes wf: "wf_db d" and ac: "aircraft d' = aircraft d @ news"
    and new: "new \<notin> f_id ` set (flight d)"
    and rel: "list_all2 (copy_of sel d d' new) acs news"
  shows "select_aircraft d' new = news"
    and "flightID \<in> f_id ` set (flight d) \<Longrightarrow> select_aircraft d' flightID = select_aircraft d flightID"
proof -
  from wf have "\<forall>a \<in> set (aircraft d). a_flight_id a \<in> f_id ` set (flight d)"
    unfolding wf_db_def by simp
  with new have old: "\<forall>a \<in> set (aircraft d). a_flight_id a \<noteq> new" by metis
  have nw: "\<forall>n \<in> set news. a_flight_id n = new"
  proof
    fix n assume "n \<in> set news"
    then obtain i where i: "i < length news" "news ! i = n" by (auto simp: in_set_conv_nth)
    with rel have "copy_of sel d d' new (acs ! i) n"
      by (auto simp: list_all2_conv_all_nth)
    then show "a_flight_id n = new" by (simp add: copy_of_def)
  qed
  from old have "filter (\<lambda>a. a_flight_id a = new) (aircraft d) = []"
    by (simp add: filter_empty_conv)
  moreover from nw have "filter (\<lambda>a. a_flight_id a = new) news = news"
    by (simp add: filter_id_conv)
  ultimately show "select_aircraft d' new = news"
    by (simp add: select_aircraft_def ac)
  assume "flightID \<in> f_id ` set (flight d)"
  with new have "flightID \<noteq> new" by auto
  with nw have "filter (\<lambda>a. a_flight_id a = flightID) news = []"
    by (simp add: filter_empty_conv)
  then show "select_aircraft d' flightID = select_aircraft d flightID"
    by (simp add: select_aircraft_def ac)
qed

lemma select_markers_new_flight:
  assumes wf: "wf_db d" and mk: "markers d' = markers d @ ms"
    and new: "new \<notin> f_id ` set (flight d)"
    and nw: "\<forall>m \<in> set ms. m_flight_id m = new"
    and sorted: "sorted (map m_time ms)"
  shows "select_markers d' new = ms"
    and "flightID \<in> f_id ` set (flight d) \<Longrightarrow> select_markers d' flightID = select_markers d flightID"
proof -
  from wf have "\<forall>m \<in> set (markers d). m_flight_id m \<in> f_id ` set (flight d)"
    unfolding wf_db_def by simp
  with new have old: "\<forall>m \<in> set (markers d). m_flight_id m \<noteq> new" by metis
  then have "filter (\<lambda>m. m_flight_id m = new) (markers d) = []"
    by (simp add: filter_empty_conv)
  moreover from nw have "filter (\<lambda>m. m_flight_id m = new) ms = ms"
    by (simp add: filter_id_conv)
  ultimately show "select_markers d' new = ms"
    using sorted by (simp add: select_markers_def mk sort_key_id_if_sorted)
  assume "flightID \<in> f_id ` set (flight d)"
  with new have "flightID \<noteq> new" by auto
  with nw have "filter (\<lambda>m. m_flight_id m = flightID) ms = []"
    by (simp add: filter_empty_conv)
  then show "select_markers d' flightID = select_markers d flightID"
    by (simp add: select_markers_def mk)
qed

text \<open>The full duplicate of an existing flight of a well-formed store.\<close>

lemma duplicateFlight_ok:
  assumes wf: "wf_db d" and f: "f \<in> set (flight d)"
  shows "\<exists>d' news ms.
      duplicateFlight (f_id f) newTitle d = (d', Inr (next_rowid (map f_id (flight d))))
      \<and> wf_db d'
      \<and> flight d' = flight d @ [new_flight d f newTitle]
      \<and> aircraft d' = aircraft d @ news
      \<and> (\<forall>t. \<forall>a \<in> a_id ` set (aircraft d). rows_of t d' a = rows_of t d a)
      \<and> list_all2 (copy_of sel_all d d' (next_rowid (map f_id (flight d))))
           (select_aircraft d (f_id f)) news
      \<and> markers d' = markers d @ ms
      \<and> map (\<lambda>m. (m_time m, m_label m)) ms
          = map (\<lambda>m. (m_time m, m_label m)) (select_markers d (f_id f))
      \<and> (\<forall>m \<in> set ms. m_flight_id m = next_rowid (map f_id (flight d)) \<and> m_type m = ''regular'')"
proof -
  let ?new = "next_rowid (map f_id (flight d))"
  let ?tx1 = "d\<lparr>flight := flight d @ [new_flight d f newTitle]\<rparr>"
  have rec: "duplicateFlightRecord d (f_id f) newTitle = Inr (?tx1, ?new)"
    using wf f by (rule duplicateFlightRecord_ok(1))
  have sel: "\<forall>ac \<in> set (select_aircraft d (f_id f)). \<forall>t \<in> {Position, Attitude, Engine}.
                \<exists>out. sel_all (rows_of t d (a_id ac)) = Inr out \<and> distinct (map fst out)"
    using rows_of_distinct [OF wf] sel_all_ok by blast
  from copy_aircraft_ok [OF wf f sel, of newTitle]
  obtain tx2 news where loop:
    "copyAircraftLoop sel_all ?tx1 (select_aircraft d (f_id f)) ?new = Inr tx2"
    and wf2: "wf_db tx2"
    and fl2: "flight tx2 = flight d @ [new_flight d f newTitle]"
    and mk2: "markers tx2 = markers d"
    and ac2: "aircraft tx2 = aircraft d @ news"
    and rows2: "\<forall>t. \<forall>a \<in> a_id ` set (aircraft d). rows_of t tx2 a = rows_of t d a"
    and rel2: "list_all2 (copy_of sel_all d tx2 ?new) (select_aircraft d (f_id f)) news"
    by blast
  let ?rows = "map (\<lambda>m. (m_time m, m_label m)) (select_markers tx2 (f_id f))"
  let ?d' = "insert_markers_default ?new ?rows tx2"
  from insert_markers_default_props [of ?new ?rows tx2]
  obtain ms where ms: "markers ?d' = markers tx2 @ ms"
    "map (\<lambda>m. (m_time m, m_label m)) ms = ?rows"
    "\<forall>m \<in> set ms. m_flight_id m = ?new \<and> m_type m = ''regular''"
    and same: "flight ?d' = flight tx2" "aircraft ?d' = aircraft tx2" "telemetry ?d' = telemetry tx2"
    by blast
  have res: "duplicateFlight (f_id f) newTitle d = (?d', Inr ?new)"
    using rec loop
    by (simp add: duplicateFlight_def Begin_def Commit_def Let_def duplicateMarkers_def
        getAircraftByFlightIDFromMainDB_def duplicateAircraftLoop_copy)
  have "\<forall>m \<in> set ms. m_flight_id m \<in> f_id ` set (flight tx2)"
    using ms(3) fl2 by (simp add: new_flight_def)
  with wf2 same ms(1) have wf': "wf_db ?d'" by (rule wf_add_markers)
  have sm: "select_markers tx2 (f_id f) = select_markers d (f_id f)"
    by (simp add: select_markers_def mk2)
  have rows': "\<forall>t. \<forall>a \<in> a_id ` set (aircraft d). rows_of t ?d' a = rows_of t d a"
    using rows2 same(3) by (simp add: rows_of_def)
  have rel': "list_all2 (copy_of sel_all d ?d' ?new) (select_aircraft d (f_id f)) news"
    using rel2 by (simp add: copy_of_cong [OF same(3)])
  from res wf' fl2 ac2 rows' rel' ms mk2 sm same show ?thesis
    by (intro exI [of _ ?d'] exI [of _ news] exI [of _ ms]) simp
qed

lemma copy_of_sel_all_series:
  assumes "copy_of sel_all d d' new ac n" and "t \<in> {Position, Attitude, Engine}"
  shows "map (\<lambda>r. (timestamp r, t_cols r)) (select_series t d' (a_id n))
         = map (\<lambda>r. (timestamp r, t_cols r)) (select_series t d (a_id ac))"
proof -
  let ?out = "map (\<lambda>r. (timestamp r, t_cols r)) (sort_key timestamp (rows_of t d (a_id ac)))"
  from assms have rows: "rows_of t d' (a_id n) = map (mk_row (a_id n)) ?out"
    unfolding copy_of_def sel_all_def by blast
  have "sorted (map timestamp (map (mk_row (a_id n)) ?out))"
    by (simp add: comp_def sorted_sort_key)
  then have "sort_key timestamp (map (mk_row (a_id n)) ?out) = map (mk_row (a_id n)) ?out"
    by (rule sort_key_id_if_sorted)
  then show ?thesis
    by (simp add: select_series_rows_of rows comp_def)
qed

section \<open>Facts about the example inputs\<close>

lemma example_db_wf: "wf_db example_db"
  by code_simp

lemma example_db_flight: "example_flight 1 ''F'' \<in> set (flight example_db)"
  by (simp add: example_db_def)

lemma example_flight_id: "f_id (example_flight i ttl) = i"
  by (simp add: example_flight_def)

lemma example_db_aircraft:
  "select_aircraft example_db 1
   = [\<lparr>a_id = 1, a_flight_id = 1, a_seq_nr = Some 1, a_type = ''C172'', a_cols = []\<rparr>]"
  by code_simp

lemma example_db_markers:
  "map (\<lambda>m. (m_time m, m_label m)) (select_markers example_db 1)
   = [(10, ''Trim Start''), (25, ''turn''), (40, ''Trim End'')]"
  by code_simp

lemma example_db_duplicate: "snd (duplicateFlight 1 ''F2'' example_db) = Inr 2"
  by code_simp

section \<open>Properties of the delete\<close>

lemma deleteAircraftData_simps [simp]:
  "flight (deleteAircraftData a tx) = flight tx"
  "aircraft (deleteAircraftData a tx) = aircraft tx"
  "markers (deleteAircraftData a tx) = markers tx"
  "markers_seq (deleteAircraftData a tx) = markers_seq tx"
  by (simp_all add: deleteAircraftData_def delete_telemetry_def)

lemma deleteAircraftData_telemetry:
  "telemetry (deleteAircraftData a tx) t = filter (\<lambda>r. t_aircraft_id r \<noteq> a) (telemetry tx t)"
  by (cases t) (simp_all add: deleteAircraftData_def delete_telemetry_def)

lemma fold_deleteAircraftData:
  "flight (fold deleteAircraftData ids tx) = flight tx
   \<and> aircraft (fold deleteAircraftData ids tx) = aircraft tx
   \<and> markers (fold deleteAircraftData ids tx) = markers tx
   \<and> markers_seq (fold deleteAircraftData ids tx) = markers_seq tx
   \<and> telemetry (fold deleteAircraftData ids tx) t
       = filter (\<lambda>r. t_aircraft_id r \<notin> set ids) (telemetry tx t)"
proof (induction ids arbitrary: tx)
  case Nil
  show ?case by simp
next
  case (Cons a ids)
  have "filter (\<lambda>r. t_aircraft_id r \<notin> set ids) (filter (\<lambda>r. t_aircraft_id r \<noteq> a) (telemetry tx t))
        = filter (\<lambda>r. t_aircraft_id r \<notin> set (a # ids)) (telemetry tx t)"
    by (auto intro: filter_cong)
  with Cons [of "deleteAircraftData a tx"] show ?case
    by (simp add: deleteAircraftData_telemetry)
qed

section \<open>Properties of the import\<close>

lemma insert_series_Inr:
  "insert_series t a rows d = Inr d' \<Longrightarrow> d' = append_rows t (map (mk_row a) rows) d"
  by (simp add: insert_series_eq split: if_splits)

lemma importFlightsLoop_Inr:
  "importFlightsLoop rows tx acc = Inr (tx', flights) \<Longrightarrow>
     length (flight tx') = length (flight tx) + length rows
     \<and> aircraft tx' = aircraft tx \<and> telemetry tx' = telemetry tx \<and> markers tx' = markers tx
     \<and> map SourceID flights = map SourceID acc @ map f_id rows"
proof (induction rows arbitrary: tx acc)
  case Nil
  then show ?case by simp
next
  case (Cons row rows)
  let ?ins = "insert_flight (f_title row) (f_flight_number row) (f_start_zulu_sim_time row)
          (f_end_zulu_sim_time row) (f_user_aircraft_seq_nr row) (f_cols row) tx"
  show ?case
  proof (cases ?ins)
    case (Inl e)
    with Cons.prems show ?thesis by simp
  next
    case (Inr p)
    obtain tx1 newID where p: "p = (tx1, newID)" by (cases p)
    define imported where "imported =
      \<lparr>ID = newID, SourceID = f_id row,
        Title = (if (case f_title row of None \<Rightarrow> [] | Some s \<Rightarrow> s) = [] then ''Untitled''
                 else (case f_title row of None \<Rightarrow> [] | Some s \<Rightarrow> s)),
        FlightNumber = (if (case f_flight_number row of None \<Rightarrow> [] | Some s \<Rightarrow> s) = []
                        then ''No Number''
                        else (case f_flight_number row of None \<Rightarrow> [] | Some s \<Rightarrow> s)),
        FlightStartTime = f_start_zulu_sim_time row,
        FlightEndTime = f_end_zulu_sim_time row\<rparr>"
    from Cons.prems Inr p
    have loop: "importFlightsLoop rows tx1 (acc @ [imported]) = Inr (tx', flights)"
      by (simp add: Let_def imported_def)
    have sid: "SourceID imported = f_id row" by (simp add: imported_def)
    from Inr p have "length (flight tx1) = length (flight tx) + 1 \<and> aircraft tx1 = aircraft tx
        \<and> telemetry tx1 = telemetry tx \<and> markers tx1 = markers tx"
      by (auto simp: insert_flight_def Let_def split: if_splits)
    with Cons.IH [OF loop] sid show ?thesis by simp
  qed
qed

text \<open>The rows that the import writes for one source aircraft into one table.\<close>

lemma importAircraftLoop_Inr:
  "importAircraftLoop sourceDB rows new tx = Inr tx' \<Longrightarrow>
     flight tx' = flight tx \<and> markers tx' = markers tx
     \<and> length (aircraft tx') = length (aircraft tx) + length rows
     \<and> (\<forall>t \<in> {Position, Attitude, Engine}.
           length (telemetry tx' t)
           = length (telemetry tx t) + (\<Sum>a\<leftarrow>rows. length (rows_of t (src sourceDB) (a_id a))))"
proof (induction rows arbitrary: tx)
  case Nil
  then show ?case by simp
next
  case (Cons row rows)
  from Cons.prems obtain tx1 n tx2 tx3 tx4 where
    s: "insert_aircraft new (a_seq_nr row) (a_type row) (a_cols row) tx = Inr (tx1, n)"
      "importPositionData sourceDB tx1 (a_id row) n = Inr tx2"
      "importAttitudeData sourceDB tx2 (a_id row) n = Inr tx3"
      "importEngineData sourceDB tx3 (a_id row) n = Inr tx4"
      "importAircraftLoop sourceDB rows new tx4 = Inr tx'"
    by (auto split: sum.splits prod.splits)
  from s(1) have 1: "flight tx1 = flight tx \<and> markers tx1 = markers tx
      \<and> length (aircraft tx1) = length (aircraft tx) + 1 \<and> telemetry tx1 = telemetry tx"
    by (auto simp: insert_aircraft_def Let_def split: if_splits)
  from s(2) have 2: "tx2 = append_rows Position
      (map (mk_row n) (map (\<lambda>r. (timestamp r, take 6 (t_cols r) @ [SqlNull]))
         (select_series Position (src sourceDB) (a_id row)))) tx1"
    unfolding importPositionData_def by (rule insert_series_Inr)
  from s(3) have 3: "tx3 = append_rows Attitude
      (map (mk_row n) (map (\<lambda>r. (timestamp r, t_cols r))
         (select_series Attitude (src sourceDB) (a_id row)))) tx2"
    unfolding importAttitudeData_def by (rule insert_series_Inr)
  from s(4) have 4: "tx4 = append_rows Engine
      (map (mk_row n) (map (\<lambda>r. (timestamp r, t_cols r))
         (select_series Engine (src sourceDB) (a_id row)))) tx3"
    unfolding importEngineData_def by (rule insert_series_Inr)
  have "flight tx4 = flight tx \<and> markers tx4 = markers tx
     \<and> length (aircraft tx4) = length (aircraft tx) + 1
     \<and> (\<forall>t \<in> {Position, Attitude, Engine}.
           length (telemetry tx4 t)
           = length (telemetry tx t) + length (rows_of t (src sourceDB) (a_id row)))"
    using 1 by (simp add: 2 3 4 select_series_rows_of)
  with Cons.IH [OF s(5)] show ?case by simp
qed

lemma importAircraftForFlights_Inr:
  "importAircraftForFlights sourceDB flights tx = Inr tx' \<Longrightarrow>
     flight tx' = flight tx \<and> markers tx' = markers tx
     \<and> length (aircraft tx')
        = length (aircraft tx)
          + (\<Sum>f\<leftarrow>flights. length (select_aircraft (src sourceDB) (SourceID f)))
     \<and> (\<forall>t \<in> {Position, Attitude, Engine}.
           length (telemetry tx' t)
           = length (telemetry tx t)
             + (\<Sum>f\<leftarrow>flights. \<Sum>a\<leftarrow>select_aircraft (src sourceDB) (SourceID f).
                  length (rows_of t (src sourceDB) (a_id a))))"
proof (induction flights arbitrary: tx)
  case Nil
  then show ?case by simp
next
  case (Cons f flights)
  from Cons.prems obtain tx1 where
    s: "importAircraftLoop sourceDB (select_aircraft (src sourceDB) (SourceID f)) (ID f) tx = Inr tx1"
      "importAircraftForFlights sourceDB flights tx1 = Inr tx'"
    by (auto simp: importAircraftForFlight_def split: sum.splits)
  from importAircraftLoop_Inr [OF s(1)] Cons.IH [OF s(2)] show ?case by simp
qed

lemma example_source_import: "snd (ImportFlightsFromDatabase example_source example_db) = Inl ErrUnique"
  by code_simp

lemma example_source_ok_import:
  "map_sum id (map (\<lambda>f. (ID f, SourceID f, Title f)))
     (snd (ImportFlightsFromDatabase example_source_ok example_db))
   = Inr [(2, 10, ''A''), (3, 11, ''Untitled'')]"
  by code_simp

section \<open>Properties of the trim\<close>

text \<open>The trim of an existing flight each of whose aircraft has rows in all three series.\<close>

lemma trimFlight_ok:
  assumes wf: "wf_db d" and f: "f \<in> set (flight d)"
    and ne: "\<forall>ac \<in> set (select_aircraft d (f_id f)). \<forall>t \<in> {Position, Attitude, Engine}.
               rows_of t d (a_id ac) \<noteq> []"
  shows "\<exists>d' news ms.
      trimFlight (f_id f) newTitle s e d = (d', Inr (next_rowid (map f_id (flight d))))
      \<and> wf_db d'
      \<and> flight d' = flight d @ [new_flight d f newTitle]
      \<and> aircraft d' = aircraft d @ news
      \<and> (\<forall>t. \<forall>a \<in> a_id ` set (aircraft d). rows_of t d' a = rows_of t d a)
      \<and> list_all2 (copy_of (sel_trim s e) d d' (next_rowid (map f_id (flight d))))
           (select_aircraft d (f_id f)) news
      \<and> markers d' = markers d @ ms
      \<and> map (\<lambda>m. (m_time m, m_label m, m_type m)) ms
          = map (\<lambda>m. (m_time m - s, m_label m, m_type m))
              (filter (\<lambda>m. m_time m \<ge> s \<and> m_time m \<le> e) (select_markers d (f_id f)))
      \<and> (\<forall>m \<in> set ms. m_flight_id m = next_rowid (map f_id (flight d)))"
proof -
  let ?new = "next_rowid (map f_id (flight d))"
  let ?tx1 = "d\<lparr>flight := flight d @ [new_flight d f newTitle]\<rparr>"
  have rec: "duplicateFlightRecord d (f_id f) newTitle = Inr (?tx1, ?new)"
    using wf f by (rule duplicateFlightRecord_ok(1))
  have sel: "\<forall>ac \<in> set (select_aircraft d (f_id f)). \<forall>t \<in> {Position, Attitude, Engine}.
                \<exists>out. sel_trim s e (rows_of t d (a_id ac)) = Inr out \<and> distinct (map fst out)"
    using ne rows_of_distinct [OF wf] sel_trim_ok by blast
  from copy_aircraft_ok [OF wf f sel, of newTitle]
  obtain tx2 news where loop:
    "copyAircraftLoop (sel_trim s e) ?tx1 (select_aircraft d (f_id f)) ?new = Inr tx2"
    and wf2: "wf_db tx2"
    and fl2: "flight tx2 = flight d @ [new_flight d f newTitle]"
    and mk2: "markers tx2 = markers d"
    and ac2: "aircraft tx2 = aircraft d @ news"
    and rows2: "\<forall>t. \<forall>a \<in> a_id ` set (aircraft d). rows_of t tx2 a = rows_of t d a"
    and rel2: "list_all2 (copy_of (sel_trim s e) d tx2 ?new) (select_aircraft d (f_id f)) news"
    by blast
  let ?rows = "map (\<lambda>m. (m_time m - s, m_label m, m_type m))
                 (filter (\<lambda>m. m_time m \<ge> s \<and> m_time m \<le> e) (select_markers tx2 (f_id f)))"
  let ?d' = "insert_markers_typed ?new ?rows tx2"
  from insert_markers_typed_props [of ?new ?rows tx2]
  obtain ms where ms: "markers ?d' = markers tx2 @ ms"
    "map (\<lambda>m. (m_time m, m_label m, m_type m)) ms = ?rows"
    "\<forall>m \<in> set ms. m_flight_id m = ?new"
    and same: "flight ?d' = flight tx2" "aircraft ?d' = aircraft tx2" "telemetry ?d' = telemetry tx2"
    by blast
  have res: "trimFlight (f_id f) newTitle s e d = (?d', Inr ?new)"
    using rec loop
    by (simp add: trimFlight_def Begin_def Commit_def Let_def duplicateMarkersTrimmed_def
        getAircraftByFlightIDFromMainDB_def trimAircraftLoop_copy)
  have "\<forall>m \<in> set ms. m_flight_id m \<in> f_id ` set (flight tx2)"
    using ms(3) fl2 by (simp add: new_flight_def)
  with wf2 same ms(1) have wf': "wf_db ?d'" by (rule wf_add_markers)
  have sm: "select_markers tx2 (f_id f) = select_markers d (f_id f)"
    by (simp add: select_markers_def mk2)
  have rows': "\<forall>t. \<forall>a \<in> a_id ` set (aircraft d). rows_of t ?d' a = rows_of t d a"
    using rows2 same(3) by (simp add: rows_of_def)
  have rel': "list_all2 (copy_of (sel_trim s e) d ?d' ?new) (select_aircraft d (f_id f)) news"
    using rel2 by (simp add: copy_of_cong [OF same(3)])
  from res wf' fl2 ac2 rows' rel' ms mk2 sm same show ?thesis
    by (intro exI [of _ ?d'] exI [of _ news] exI [of _ ms]) simp
qed

text \<open>An error of the trim leaves the store as it was.\<close>

lemma trimFlight_Inl:
  "trimFlight flightID newTitle s e d = (d', Inl err) \<Longrightarrow> d' = d"
  by (auto simp: trimFlight_def Begin_def Commit_def Rollback_def Let_def
      duplicateMarkersTrimmed_def split: sum.splits prod.splits)

text \<open>
  The series of a trimmed aircraft: the rows of the original inside the window, which is
  laid from the minimum of this very series, each moved back by the start offset.
\<close>

lemma copy_of_sel_trim_series:
  assumes c: "copy_of (sel_trim s e) d d' new ac n" and t: "t \<in> {Position, Attitude, Engine}"
    and ne: "rows_of t d (a_id ac) \<noteq> []"
  shows "map (\<lambda>r. (timestamp r, t_cols r)) (select_series t d' (a_id n))
         = map (\<lambda>r. (timestamp r - go_int64 (s * 1000), t_cols r))
             (filter (\<lambda>r. Min (timestamp ` set (rows_of t d (a_id ac))) + go_int64 (s * 1000)
                             \<le> timestamp r
                           \<and> timestamp r
                             \<le> Min (timestamp ` set (rows_of t d (a_id ac))) + go_int64 (e * 1000))
                (select_series t d (a_id ac)))"
proof -
  let ?m = "Min (timestamp ` set (rows_of t d (a_id ac)))"
  let ?sel = "filter (\<lambda>r. ?m + go_int64 (s * 1000) \<le> timestamp r
                          \<and> timestamp r \<le> ?m + go_int64 (e * 1000))
                (sort_key timestamp (rows_of t d (a_id ac)))"
  let ?out = "map (\<lambda>r. (timestamp r - go_int64 (s * 1000), t_cols r)) ?sel"
  from c t ne have rows: "rows_of t d' (a_id n) = map (mk_row (a_id n)) ?out"
    unfolding copy_of_def sel_trim_def by (auto simp: Let_def)
  have "sorted (map timestamp ?sel)"
    by (intro sorted_filter sorted_sort_key)
  then have "sorted (map (\<lambda>r. timestamp r - go_int64 (s * 1000)) ?sel)"
    by (simp add: sorted_map sorted_wrt_iff_nth_less)
  then have "sorted (map timestamp (map (mk_row (a_id n)) ?out))"
    by (simp add: comp_def)
  then have "sort_key timestamp (map (mk_row (a_id n)) ?out) = map (mk_row (a_id n)) ?out"
    by (rule sort_key_id_if_sorted)
  then show ?thesis
    by (simp add: select_series_rows_of rows comp_def)
qed

lemma Min_timestamp_select_series:
  "Min (timestamp ` set (select_series t d a)) = Min (timestamp ` set (rows_of t d a))"
  by (simp add: select_series_rows_of)

lemma trimFlight_series:
  assumes wf: "wf_db d" and f: "f \<in> set (flight d)"
    and ne: "\<forall>ac \<in> set (select_aircraft d (f_id f)). \<forall>t \<in> {Position, Attitude, Engine}.
               rows_of t d (a_id ac) \<noteq> []"
  shows "\<exists>d' new. trimFlight (f_id f) newTitle s e d = (d', Inr new)
     \<and> new \<notin> f_id ` set (flight d)
     \<and> length (select_aircraft d' new) = length (select_aircraft d (f_id f))
     \<and> (\<forall>i < length (select_aircraft d (f_id f)). \<forall>t \<in> {Position, Attitude, Engine}.
           map (\<lambda>r. (timestamp r, t_cols r))
             (select_series t d' (a_id (select_aircraft d' new ! i)))
           = map (\<lambda>r. (timestamp r - go_int64 (s * 1000), t_cols r))
               (filter (\<lambda>r.
                    Min (timestamp ` set (select_series t d (a_id (select_aircraft d (f_id f) ! i))))
                      + go_int64 (s * 1000) \<le> timestamp r
                    \<and> timestamp r
                      \<le> Min (timestamp ` set (select_series t d (a_id (select_aircraft d (f_id f) ! i))))
                        + go_int64 (e * 1000))
                  (select_series t d (a_id (select_aircraft d (f_id f) ! i)))))"
proof -
  let ?new = "next_rowid (map f_id (flight d))"
  let ?acs = "select_aircraft d (f_id f)"
  from trimFlight_ok [OF wf f ne, of newTitle s e]
  obtain d' news where res: "trimFlight (f_id f) newTitle s e d = (d', Inr ?new)"
    and ac: "aircraft d' = aircraft d @ news"
    and rel: "list_all2 (copy_of (sel_trim s e) d d' ?new) ?acs news"
    by blast
  have fresh: "?new \<notin> f_id ` set (flight d)" by (rule next_flight_fresh)
  have sa: "select_aircraft d' ?new = news"
    using wf ac fresh rel by (rule select_aircraft_new_flight(1))
  from rel have len: "length news = length ?acs" by (simp add: list_all2_lengthD)
  have series: "\<forall>i < length ?acs. \<forall>t \<in> {Position, Attitude, Engine}.
      map (\<lambda>r. (timestamp r, t_cols r)) (select_series t d' (a_id (news ! i)))
      = map (\<lambda>r. (timestamp r - go_int64 (s * 1000), t_cols r))
               (filter (\<lambda>r.
                    Min (timestamp ` set (select_series t d (a_id (?acs ! i))))
                      + go_int64 (s * 1000) \<le> timestamp r
                    \<and> timestamp r
                      \<le> Min (timestamp ` set (select_series t d (a_id (?acs ! i))))
                        + go_int64 (e * 1000))
                  (select_series t d (a_id (?acs ! i))))"
  proof (intro allI impI ballI)
    fix i t assume i: "i < length ?acs" and t: "t \<in> {Position, Attitude, Engine}"
    from rel i have c: "copy_of (sel_trim s e) d d' ?new (?acs ! i) (news ! i)"
      by (rule list_all2_nthD)
    from i have "?acs ! i \<in> set ?acs" by simp
    with ne t have n: "rows_of t d (a_id (?acs ! i)) \<noteq> []" by blast
    from copy_of_sel_trim_series [OF c t n]
    show "map (\<lambda>r. (timestamp r, t_cols r)) (select_series t d' (a_id (news ! i)))
      = map (\<lambda>r. (timestamp r - go_int64 (s * 1000), t_cols r))
               (filter (\<lambda>r.
                    Min (timestamp ` set (select_series t d (a_id (?acs ! i))))
                      + go_int64 (s * 1000) \<le> timestamp r
                    \<and> timestamp r
                      \<le> Min (timestamp ` set (select_series t d (a_id (?acs ! i))))
                        + go_int64 (e * 1000))
                  (select_series t d (a_id (?acs ! i))))"
      by (simp only: Min_timestamp_select_series)
  qed
  from res fresh sa len series show ?thesis
    by (intro exI [of _ d'] exI [of _ ?new]) simp
qed

text \<open>
  How a trimmed series lies on the time axis: its timestamps are those of the selected
  rows minus the start offset \<open>k\<close>.
\<close>

lemma trimmed_series_timestamps:
  fixes original trimmed :: "telemetry_row list" and k :: int
  assumes eq: "map (\<lambda>r. (timestamp r, t_cols r)) trimmed
               = map (\<lambda>r. (timestamp r - k, t_cols r)) sel"
  shows "map timestamp trimmed = map (\<lambda>r. timestamp r - k) sel"
proof -
  have "map fst (map (\<lambda>r. (timestamp r, t_cols r)) trimmed)
        = map fst (map (\<lambda>r. (timestamp r - k, t_cols r)) sel)"
    by (simp only: eq)
  then show ?thesis
    by (simp only: map_map comp_def fst_conv)
qed

lemma trimmed_series_length:
  fixes original trimmed :: "telemetry_row list" and k k' m :: int
  assumes ts: "map timestamp trimmed = map (\<lambda>r. timestamp r - k)
                   (filter (\<lambda>r. m + k \<le> timestamp r \<and> timestamp r \<le> m + k') original)"
  shows "length trimmed
         = length (filter (\<lambda>r. k \<le> timestamp r - m \<and> timestamp r - m \<le> k') original)"
proof -
  let ?sel = "filter (\<lambda>r. m + k \<le> timestamp r \<and> timestamp r \<le> m + k') original"
  have "length (map timestamp trimmed) = length (map (\<lambda>r. timestamp r - k) ?sel)"
    by (simp only: ts)
  then have "length trimmed = length ?sel"
    by (simp only: length_map)
  moreover have "?sel = filter (\<lambda>r. k \<le> timestamp r - m \<and> timestamp r - m \<le> k') original"
    by (rule filter_cong) auto
  ultimately show ?thesis by simp
qed

lemma trimmed_series_set:
  fixes original trimmed :: "telemetry_row list" and k k' m :: int
  assumes ts: "map timestamp trimmed = map (\<lambda>r. timestamp r - k)
                   (filter (\<lambda>r. m + k \<le> timestamp r \<and> timestamp r \<le> m + k') original)"
  shows "timestamp ` set trimmed
         = (\<lambda>r. timestamp r - k) ` {r \<in> set original. m + k \<le> timestamp r \<and> timestamp r \<le> m + k'}"
proof -
  let ?sel = "filter (\<lambda>r. m + k \<le> timestamp r \<and> timestamp r \<le> m + k') original"
  have "set (map timestamp trimmed) = set (map (\<lambda>r. timestamp r - k) ?sel)"
    by (simp only: ts)
  then show ?thesis
    by (simp only: set_map set_filter)
qed

lemma trimmed_set_bounds:
  fixes k k' m :: int
  assumes set_ts: "T = (\<lambda>r. timestamp r - k) ` {r \<in> set original. m + k \<le> timestamp r \<and> timestamp r \<le> m + k'}"
  shows "\<forall>x \<in> T. m \<le> x \<and> x \<le> m + (k' - k)"
  unfolding set_ts by auto


lemma go_int64_window: "go_int64 (10 * 1000) = 10000" "go_int64 (40 * 1000) = 40000"
  by (simp_all add: go_int64_def)

text \<open>
  The position series of a trim to the window from 10 to 40 seconds, for a flight each of
  whose aircraft has rows in all three series.
\<close>

lemma trimFlight_position_window:
  assumes wf: "wf_db d" and f: "f \<in> set (flight d)"
    and ne: "\<forall>ac \<in> set (select_aircraft d (f_id f)). \<forall>t \<in> {Position, Attitude, Engine}.
               rows_of t d (a_id ac) \<noteq> []"
  shows "\<exists>d' new. trimFlight (f_id f) newTitle 10 40 d = (d', Inr new)
     \<and> length (select_aircraft d' new) = length (select_aircraft d (f_id f))
     \<and> (\<forall>i < length (select_aircraft d (f_id f)).
           let original = select_series Position d (a_id (select_aircraft d (f_id f) ! i));
               trimmed = select_series Position d' (a_id (select_aircraft d' new ! i));
               minTimestamp = Min (timestamp ` set original)
           in length trimmed
                = length (filter (\<lambda>r. 10000 \<le> timestamp r - minTimestamp
                                     \<and> timestamp r - minTimestamp \<le> 40000) original)
              \<and> (trimmed \<noteq> [] \<longrightarrow>
                   (\<exists>r \<in> set trimmed. timestamp r - Min (timestamp ` set trimmed) = 0)
                   \<and> (\<forall>r \<in> set trimmed.
                         0 \<le> timestamp r - Min (timestamp ` set trimmed)
                         \<and> timestamp r - Min (timestamp ` set trimmed) \<le> 30000)))"
proof -
  from trimFlight_series [OF wf f ne, of newTitle 10 40]
  obtain d' new where res: "trimFlight (f_id f) newTitle 10 40 d = (d', Inr new)"
    and len: "length (select_aircraft d' new) = length (select_aircraft d (f_id f))"
    and ser: "\<forall>i < length (select_aircraft d (f_id f)). \<forall>t \<in> {Position, Attitude, Engine}.
           map (\<lambda>r. (timestamp r, t_cols r))
             (select_series t d' (a_id (select_aircraft d' new ! i)))
           = map (\<lambda>r. (timestamp r - go_int64 (10 * 1000), t_cols r))
               (filter (\<lambda>r.
                    Min (timestamp ` set (select_series t d (a_id (select_aircraft d (f_id f) ! i))))
                      + go_int64 (10 * 1000) \<le> timestamp r
                    \<and> timestamp r
                      \<le> Min (timestamp ` set (select_series t d (a_id (select_aircraft d (f_id f) ! i))))
                        + go_int64 (40 * 1000))
                  (select_series t d (a_id (select_aircraft d (f_id f) ! i))))"
    by blast
  have each: "let original = select_series Position d (a_id (select_aircraft d (f_id f) ! i));
               trimmed = select_series Position d' (a_id (select_aircraft d' new ! i));
               minTimestamp = Min (timestamp ` set original)
           in length trimmed
                = length (filter (\<lambda>r. 10000 \<le> timestamp r - minTimestamp
                                     \<and> timestamp r - minTimestamp \<le> 40000) original)
              \<and> (trimmed \<noteq> [] \<longrightarrow>
                   (\<exists>r \<in> set trimmed. timestamp r - Min (timestamp ` set trimmed) = 0)
                   \<and> (\<forall>r \<in> set trimmed.
                         0 \<le> timestamp r - Min (timestamp ` set trimmed)
                         \<and> timestamp r - Min (timestamp ` set trimmed) \<le> 30000))"
    if i: "i < length (select_aircraft d (f_id f))" for i
  proof -
    let ?original = "select_series Position d (a_id (select_aircraft d (f_id f) ! i))"
    let ?trimmed = "select_series Position d' (a_id (select_aircraft d' new ! i))"
    let ?m = "Min (timestamp ` set ?original)"
    from ser i have eq: "map (\<lambda>r. (timestamp r, t_cols r)) ?trimmed
        = map (\<lambda>r. (timestamp r - 10000, t_cols r))
            (filter (\<lambda>r. ?m + 10000 \<le> timestamp r \<and> timestamp r \<le> ?m + 40000) ?original)"
      unfolding go_int64_window by blast
    have ts: "map timestamp ?trimmed = map (\<lambda>r. timestamp r - 10000)
                (filter (\<lambda>r. ?m + 10000 \<le> timestamp r \<and> timestamp r \<le> ?m + 40000) ?original)"
      using eq by (rule trimmed_series_timestamps)
    have cnt: "length ?trimmed
               = length (filter (\<lambda>r. 10000 \<le> timestamp r - ?m \<and> timestamp r - ?m \<le> 40000)
                           ?original)"
      using ts by (rule trimmed_series_length)
    from trimmed_set_bounds [OF trimmed_series_set [OF ts]]
    have bounds: "\<forall>r \<in> set ?trimmed. ?m \<le> timestamp r \<and> timestamp r \<le> ?m + 30000"
      by simp
    have frame: "(\<exists>r \<in> set ?trimmed. timestamp r - Min (timestamp ` set ?trimmed) = 0)
                   \<and> (\<forall>r \<in> set ?trimmed.
                         0 \<le> timestamp r - Min (timestamp ` set ?trimmed)
                         \<and> timestamp r - Min (timestamp ` set ?trimmed) \<le> 30000)"
      if "?trimmed \<noteq> []"
    proof -
      from that have fin: "finite (timestamp ` set ?trimmed)" "timestamp ` set ?trimmed \<noteq> {}"
        by simp_all
      from Min_in [OF fin] obtain r0 where r0: "r0 \<in> set ?trimmed"
        "timestamp r0 = Min (timestamp ` set ?trimmed)"
        by auto
      from r0 bounds have lo: "?m \<le> Min (timestamp ` set ?trimmed)" by auto
      have "0 \<le> timestamp r - Min (timestamp ` set ?trimmed)
            \<and> timestamp r - Min (timestamp ` set ?trimmed) \<le> 30000"
        if r: "r \<in> set ?trimmed" for r
      proof -
        from r fin(1) have "Min (timestamp ` set ?trimmed) \<le> timestamp r" by simp
        moreover from r bounds have "timestamp r \<le> ?m + 30000" by simp
        ultimately show ?thesis using lo by linarith
      qed
      with r0 show ?thesis by auto
    qed
    from cnt frame show ?thesis
      unfolding Let_def by blast
  qed
  from res len each show ?thesis
    by (intro exI [of _ d'] exI [of _ new]) simp
qed

lemma position_only_db_trim: "snd (trimFlight 1 ''cut'' 10 40 position_only_db) = Inl ErrScanNull"
  by code_simp

lemma position_only_db_wf: "wf_db position_only_db"
  by code_simp






section \<open>Properties of the full duplicate\<close>

text \<open>
  In a store that satisfies its declared constraints, duplicating an existing flight F
  under a new title succeeds and adds one flight row, with a new id, the new title and the
  flight number and user aircraft of F. The new flight has as many aircraft as F; the i-th
  new aircraft has, in each of position, attitude and engine, the rows of the i-th aircraft
  of F with the same timestamps and values (hence the same row counts); the new flight has
  the markers of F with the same time offsets and labels (hence the same count); and F is
  as before: its flight row, its aircraft rows, every series of every old aircraft and its
  markers are the same.
\<close>

lemma duplicateFlight_round_trip:
  assumes wf: "wf_db d" and f: "f \<in> set (flight d)"
  shows "\<exists>d' new g. duplicateFlight (f_id f) newTitle d = (d', Inr new)
     \<and> new \<notin> f_id ` set (flight d)
     \<and> flight d' = flight d @ [g] \<and> f_id g = new \<and> f_title g = Some newTitle
     \<and> f_flight_number g = f_flight_number f
     \<and> f_user_aircraft_seq_nr g = f_user_aircraft_seq_nr f
     \<and> length (select_aircraft d' new) = length (select_aircraft d (f_id f))
     \<and> (\<forall>i < length (select_aircraft d (f_id f)). \<forall>t \<in> {Position, Attitude, Engine}.
           map (\<lambda>r. (timestamp r, t_cols r)) (select_series t d' (a_id (select_aircraft d' new ! i)))
           = map (\<lambda>r. (timestamp r, t_cols r))
               (select_series t d (a_id (select_aircraft d (f_id f) ! i))))
     \<and> map (\<lambda>m. (m_time m, m_label m)) (select_markers d' new)
         = map (\<lambda>m. (m_time m, m_label m)) (select_markers d (f_id f))
     \<and> filter (\<lambda>x. f_id x = f_id f) (flight d') = [f]
     \<and> select_aircraft d' (f_id f) = select_aircraft d (f_id f)
     \<and> (\<forall>t. \<forall>a \<in> a_id ` set (aircraft d). select_series t d' a = select_series t d a)
     \<and> select_markers d' (f_id f) = select_markers d (f_id f)"
proof -
  let ?new = "next_rowid (map f_id (flight d))"
  let ?acs = "select_aircraft d (f_id f)"
  from duplicateFlight_ok [OF wf f, of newTitle]
  obtain d' news ms where res: "duplicateFlight (f_id f) newTitle d = (d', Inr ?new)"
    and fl: "flight d' = flight d @ [new_flight d f newTitle]"
    and ac: "aircraft d' = aircraft d @ news"
    and rows: "\<forall>t. \<forall>a \<in> a_id ` set (aircraft d). rows_of t d' a = rows_of t d a"
    and rel: "list_all2 (copy_of sel_all d d' ?new) ?acs news"
    and mk: "markers d' = markers d @ ms"
    and mrows: "map (\<lambda>m. (m_time m, m_label m)) ms
                = map (\<lambda>m. (m_time m, m_label m)) (select_markers d (f_id f))"
    and mnew: "\<forall>m \<in> set ms. m_flight_id m = ?new \<and> m_type m = ''regular''"
    by blast
  have fresh: "?new \<notin> f_id ` set (flight d)" by (rule next_flight_fresh)
  from f have fin: "f_id f \<in> f_id ` set (flight d)" by simp
  have sa: "select_aircraft d' ?new = news"
    using wf ac fresh rel by (rule select_aircraft_new_flight(1))
  have sa_old: "select_aircraft d' (f_id f) = ?acs"
    using wf ac fresh rel fin by (rule select_aircraft_new_flight(2))
  from rel have len: "length news = length ?acs" by (simp add: list_all2_lengthD)
  have series: "\<forall>i < length ?acs. \<forall>t \<in> {Position, Attitude, Engine}.
      map (\<lambda>r. (timestamp r, t_cols r)) (select_series t d' (a_id (news ! i)))
      = map (\<lambda>r. (timestamp r, t_cols r)) (select_series t d (a_id (?acs ! i)))"
  proof (intro allI impI ballI)
    fix i t assume i: "i < length ?acs" and t: "t \<in> {Position, Attitude, Engine}"
    from rel i have "copy_of sel_all d d' ?new (?acs ! i) (news ! i)"
      by (rule list_all2_nthD)
    then show "map (\<lambda>r. (timestamp r, t_cols r)) (select_series t d' (a_id (news ! i)))
      = map (\<lambda>r. (timestamp r, t_cols r)) (select_series t d (a_id (?acs ! i)))"
      using t by (rule copy_of_sel_all_series)
  qed
  have "map m_time ms = map m_time (select_markers d (f_id f))"
    using arg_cong [OF mrows, of "map fst"] by (simp add: comp_def)
  then have srt: "sorted (map m_time ms)"
    by (simp add: select_markers_def sorted_sort_key)
  from mnew have mnew': "\<forall>m \<in> set ms. m_flight_id m = ?new" by simp
  have sm: "select_markers d' ?new = ms"
    using wf mk fresh mnew' srt by (rule select_markers_new_flight(1))
  have sm_old: "select_markers d' (f_id f) = select_markers d (f_id f)"
    using wf mk fresh mnew' srt fin by (rule select_markers_new_flight(2))
  from wf have "distinct (map f_id (flight d))" unfolding wf_db_def by simp
  then have "filter (\<lambda>x. f_id x = f_id f) (flight d) = [f]"
    using f by (rule filter_key_singleton)
  moreover from fresh fin have "f_id f \<noteq> ?new" by auto
  ultimately have fl_old: "filter (\<lambda>x. f_id x = f_id f) (flight d') = [f]"
    by (simp add: fl new_flight_def)
  have ser_old: "\<forall>t. \<forall>a \<in> a_id ` set (aircraft d). select_series t d' a = select_series t d a"
    using rows by (simp add: select_series_rows_of)
  have g: "f_id (new_flight d f newTitle) = ?new"
    "f_title (new_flight d f newTitle) = Some newTitle"
    "f_flight_number (new_flight d f newTitle) = f_flight_number f"
    "f_user_aircraft_seq_nr (new_flight d f newTitle) = f_user_aircraft_seq_nr f"
    by (simp_all add: new_flight_def)
  from res fresh fl g sa len series sm mrows fl_old sa_old ser_old sm_old show ?thesis
    by (intro exI [of _ d'] exI [of _ ?new] exI [of _ "new_flight d f newTitle"]) simp
qed

lemma duplicateFlight_round_trip_example:
  "\<exists>d'. duplicateFlight 1 ''F2'' example_db = (d', Inr 2)
     \<and> map (\<lambda>x. (f_id x, f_title x)) (flight d') = [(1, Some ''F''), (2, Some ''F2'')]
     \<and> length (select_aircraft d' 2) = 1
     \<and> map timestamp (select_series Position d' (a_id (select_aircraft d' 2 ! 0)))
         = map timestamp (select_series Position example_db 1)
     \<and> map (\<lambda>m. (m_time m, m_label m)) (select_markers d' 2)
         = [(10, ''Trim Start''), (25, ''turn''), (40, ''Trim End'')]
     \<and> select_aircraft d' 1 = select_aircraft example_db 1
     \<and> select_markers d' 1 = select_markers example_db 1"
proof -
  from duplicateFlight_round_trip [OF example_db_wf example_db_flight, of "''F2''"]
  obtain d' new g where res: "duplicateFlight 1 ''F2'' example_db = (d', Inr new)"
    and fl: "flight d' = flight example_db @ [g]" "f_id g = new" "f_title g = Some ''F2''"
    and len: "length (select_aircraft d' new) = length (select_aircraft example_db 1)"
    and ser: "\<forall>i < length (select_aircraft example_db 1). \<forall>t \<in> {Position, Attitude, Engine}.
           map (\<lambda>r. (timestamp r, t_cols r)) (select_series t d' (a_id (select_aircraft d' new ! i)))
           = map (\<lambda>r. (timestamp r, t_cols r))
               (select_series t example_db (a_id (select_aircraft example_db 1 ! i)))"
    and mk: "map (\<lambda>m. (m_time m, m_label m)) (select_markers d' new)
         = map (\<lambda>m. (m_time m, m_label m)) (select_markers example_db 1)"
    and old: "select_aircraft d' 1 = select_aircraft example_db 1"
      "select_markers d' 1 = select_markers example_db 1"
    unfolding example_flight_id by blast
  from res example_db_duplicate have new: "new = 2" by simp
  from ser have "map (\<lambda>r. (timestamp r, t_cols r))
                   (select_series Position d' (a_id (select_aircraft d' new ! 0)))
                 = map (\<lambda>r. (timestamp r, t_cols r)) (select_series Position example_db 1)"
    by (simp add: example_db_aircraft)
  from arg_cong [OF this, of "map fst"]
  have "map timestamp (select_series Position d' (a_id (select_aircraft d' new ! 0)))
        = map timestamp (select_series Position example_db 1)"
    by (simp add: comp_def)
  moreover have "map (\<lambda>x. (f_id x, f_title x)) (flight example_db) = [(1, Some ''F'')]"
    by (simp add: example_db_def example_flight_def)
  ultimately show ?thesis
    using res fl len mk old new
    by (intro exI [of _ d']) (simp add: example_db_aircraft example_db_markers)
qed

section \<open>Claims\<close>

subsection \<open>C8: CSV header detection\<close>

text \<open>
  C8, as stated, fails. The claim counts the keywords of
  \<open>{Time, Altitude, Latitude, Longitude}\<close> that appear among the column names; the loop
  counts the columns that contain some keyword. A row with three time columns and no
  altitude, latitude or longitude column is recognized although one keyword only appears.
\<close>

theorem C8_keyword_count_counterexample:
  "containsFlightDataHeaders [''Time'', ''Zulu Time'', ''Local Time'', ''Airspeed'']
   \<and> \<not> specHeaderRule [''Time'', ''Zulu Time'', ''Local Time'', ''Airspeed'']"
  by code_simp

text \<open>
  C8, amended: a CSV row is recognized as the header row exactly when at least 3 of its
  column names each contain, under case-insensitive substring matching, one of the keywords
  Time, Altitude, Latitude, Longitude; in particular the row with the columns Time,
  Altitude (feet), Latitude (degrees), Longitude (degrees), Custom is recognized, its
  parenthetical units notwithstanding.
\<close>

theorem C8_header_row_iff_three_matching_columns:
  "(containsFlightDataHeaders row \<longleftrightarrow> 3 \<le> length (filter columnMatches row))
   \<and> containsFlightDataHeaders
        [''Time'', ''Altitude (feet)'', ''Latitude (degrees)'', ''Longitude (degrees)'', ''Custom'']"
proof
  show "containsFlightDataHeaders row \<longleftrightarrow> 3 \<le> length (filter columnMatches row)"
    by (simp add: containsFlightDataHeaders_def countFound_filter)
  show "containsFlightDataHeaders
        [''Time'', ''Altitude (feet)'', ''Latitude (degrees)'', ''Longitude (degrees)'', ''Custom'']"
    by code_simp
qed

theorem C8_header_row_witness:
  "containsFlightDataHeaders [''TIME (s)'', ''altitude'', ''Speed'', ''Longitude E'']
   \<and> \<not> containsFlightDataHeaders [''Time / Altitude / Latitude'', ''Speed'']"
proof -
  have a: "3 \<le> length (filter columnMatches [''TIME (s)'', ''altitude'', ''Speed'', ''Longitude E''])"
    by code_simp
  have b: "\<not> 3 \<le> length (filter columnMatches [''Time / Altitude / Latitude'', ''Speed''])"
    by code_simp
  from a b show ?thesis
    using C8_header_row_iff_three_matching_columns [of "[''TIME (s)'', ''altitude'', ''Speed'', ''Longitude E'']"]
          C8_header_row_iff_three_matching_columns [of "[''Time / Altitude / Latitude'', ''Speed'']"]
    by blast
qed

subsection \<open>C9: which values enter the statistics\<close>

text \<open>
  C9: for an aircraft with position points, the airspeed statistics are those of the
  strictly positive airspeed values and the statistics of each altitude series (indicated,
  MSL, pressure) are those of its values different from zero, negative ones included, in
  their original order; the reported count is the number of values kept. For the altitude
  series 0, 100, -50 the statistics are those of 100, -50 and the count is 2.
\<close>

theorem C9_statistics_exclusion:
  assumes "positionData aircraftLabel = Some points" and "points \<noteq> []"
  shows "\<exists>stats. CalculateFlightStatistics positionData aircraftLabel = Some stats
     \<and> AirspeedStats stats = calculateDataStatistics (filter (\<lambda>v. 0 < v) (map Airspeed points))
     \<and> IndicatedAltitudeStats stats =
         calculateDataStatistics (filter (\<lambda>v. v \<noteq> 0) (map IndicatedAltitude points))
     \<and> AltitudeStats stats = calculateDataStatistics (filter (\<lambda>v. v \<noteq> 0) (map Altitude points))
     \<and> PressureAltitudeStats stats =
         calculateDataStatistics (filter (\<lambda>v. v \<noteq> 0) (map PressureAltitude points))
     \<and> (\<forall>series s. calculateDataStatistics series = Some s \<longrightarrow> Count s = length series)
     \<and> (\<forall>series. series \<noteq> [] \<longrightarrow> calculateDataStatistics series \<noteq> None)
     \<and> (map Altitude points = [0, 100, - 50] \<longrightarrow>
          AltitudeStats stats = calculateDataStatistics [100, - 50]
          \<and> map_option Count (AltitudeStats stats) = Some 2)"
  using assms
  by (auto simp: CalculateFlightStatistics_def aircraftStatistics_filter
      calculateDataStatistics_Count calculateDataStatistics_example
      dest: calculateDataStatistics_defined)

theorem C9_statistics_exclusion_witness:
  "\<exists>stats. CalculateFlightStatistics
       [''C172'' \<mapsto> [pointWithAltitude 0, pointWithAltitude 100, pointWithAltitude (- 50)]] ''C172''
       = Some stats
     \<and> AltitudeStats stats =
         Some \<lparr>Count = 2, Mean = 25, Variance = 5625, StdDev = 75,
               Min_val = - 50, Max_val = 100, Range = 150, Median = 25\<rparr>
     \<and> AirspeedStats stats = None"
  using C9_statistics_exclusion
    [of "[''C172'' \<mapsto> [pointWithAltitude 0, pointWithAltitude 100, pointWithAltitude (- 50)]]"
        "''C172''" "[pointWithAltitude 0, pointWithAltitude 100, pointWithAltitude (- 50)]"]
  by (auto simp: pointWithAltitude_def calculateDataStatistics_example calculateDataStatistics_Nil)

subsection \<open>C4: trim requests rejected before any write\<close>



subsection \<open>C7: at most one trim marker of each kind per flight\<close>

text \<open>
  C7 does not hold of the code. \<open>createOrUpdateTrimMarker\<close> keeps the bound (lemma
  \<open>createOrUpdateTrimMarker_trim_bound\<close>), and \<open>getTrimMarker\<close> relies on it when it reads
  one row. \<open>handleCreateMarker\<close> however stores the type that the request body carries and
  inserts without looking for a marker of that type: after a trim start has been set for
  flight 1, a generic create request of type \<open>trim_start\<close> for flight 1 leaves two.
\<close>

theorem C7_generic_create_breaks_trim_bound:
  "count_markers
     (fst (handleCreateMarker
             \<lparr>m_id = 0, m_flight_id = 1, m_time = 12.5, m_label = ''again'', m_type = ''trim_start''\<rparr>
             (fst (createOrUpdateTrimMarker 1 ''trim_start'' 10 ''Trim Start'' empty_db))))
     1 ''trim_start'' = 2"
  by (simp add: handleCreateMarker_def createMarker_def createOrUpdateTrimMarker_def
      getTrimMarker_def insert_marker_def empty_db_def count_markers_def next_rowid_def Let_def)

subsection \<open>C3: the full duplicate\<close>

text \<open>
  C3 does not hold of the code for every existing flight. The table \<open>markers\<close> declares
  \<open>FOREIGN KEY(flight_id) REFERENCES flight(id) ON DELETE CASCADE\<close>, but the connection
  is opened without switching foreign keys on, and \<open>handleCreateMarker\<close> only refuses the
  flight id 0: a create request for flight 2 is stored although the store has flight 1
  only. The next duplicate of flight 1, under a title that no flight has, receives the
  id 2, and the new flight has four markers where flight 1 has three. Where every marker
  belongs to a flight, as the declared key demands, the claim holds (lemma
  \<open>duplicateFlight_round_trip\<close>).
\<close>

theorem C3_duplicate_adopts_stray_marker:
  "snd (handleCreateMarker
          \<lparr>m_id = 0, m_flight_id = 2, m_time = 5, m_label = ''stray'', m_type = []\<rparr> example_db)
     = HttpOK \<lparr>m_id = 4, m_flight_id = 2, m_time = 5, m_label = ''stray'', m_type = ''regular''\<rparr>
   \<and> map f_id (flight stray_marker_db) = [1]
   \<and> \<not> flightTitleExists ''F2'' stray_marker_db
   \<and> snd (duplicateFlight 1 ''F2'' stray_marker_db) = Inr 2
   \<and> map (\<lambda>m. (m_time m, m_label m)) (select_markers stray_marker_db 1)
     = [(10, ''Trim Start''), (25, ''turn''), (40, ''Trim End'')]
   \<and> map (\<lambda>m. (m_time m, m_label m))
       (select_markers (fst (duplicateFlight 1 ''F2'' stray_marker_db)) 2)
     = [(5, ''stray''), (10, ''Trim Start''), (25, ''turn''), (40, ''Trim End'')]"
proof -
  have "snd (handleCreateMarker
          \<lparr>m_id = 0, m_flight_id = 2, m_time = 5, m_label = ''stray'', m_type = []\<rparr> example_db)
     = HttpOK \<lparr>m_id = 4, m_flight_id = 2, m_time = 5, m_label = ''stray'', m_type = ''regular''\<rparr>"
    by code_simp
  moreover have "map f_id (flight stray_marker_db) = [1]"
    by code_simp
  moreover have "\<not> flightTitleExists ''F2'' stray_marker_db"
    by code_simp
  moreover have "snd (duplicateFlight 1 ''F2'' stray_marker_db) = Inr 2"
    by code_simp
  moreover have "map (\<lambda>m. (m_time m, m_label m)) (select_markers stray_marker_db 1)
     = [(10, ''Trim Start''), (25, ''turn''), (40, ''Trim End'')]"
    by code_simp
  moreover have "map (\<lambda>m. (m_time m, m_label m))
       (select_markers (fst (duplicateFlight 1 ''F2'' stray_marker_db)) 2)
     = [(5, ''stray''), (10, ''Trim Start''), (25, ''turn''), (40, ''Trim End'')]"
    by code_simp
  ultimately show ?thesis by simp
qed

subsection \<open>C10: duplicated markers are regular\<close>

text \<open>
  C10: whenever the full duplicate succeeds, the markers it adds are those of the original
  flight with their time offsets and labels, attached to the new flight, and every one of
  them has the type \<open>regular\<close>, whatever the type of the marker it was copied from: the
  \<open>INSERT\<close> of \<open>duplicateMarkers\<close> does not name the column \<open>type\<close>.
\<close>

theorem C10_duplicated_markers_regular:
  assumes "duplicateFlight flightID newTitle d = (d', Inr new)"
  shows "\<exists>ms. markers d' = markers d @ ms
     \<and> map (\<lambda>m. (m_time m, m_label m)) ms
       = map (\<lambda>m. (m_time m, m_label m)) (select_markers d flightID)
     \<and> (\<forall>m \<in> set ms. m_flight_id m = new \<and> m_type m = ''regular'')"
proof -
  from assms obtain tx1 tx2 where
    s: "duplicateFlightRecord d flightID newTitle = Inr (tx1, new)"
      "duplicateAircraftLoop tx1 (getAircraftByFlightIDFromMainDB flightID d) new = Inr tx2"
      "d' = insert_markers_default new
              (map (\<lambda>m. (m_time m, m_label m)) (select_markers tx2 flightID)) tx2"
    by (auto simp: duplicateFlight_def Begin_def Commit_def Rollback_def Let_def
        duplicateMarkers_def split: sum.splits prod.splits)
  from s(2) have "markers tx2 = markers tx1"
    using copyAircraftLoop_Inr by (simp add: duplicateAircraftLoop_copy)
  with duplicateFlightRecord_Inr [OF s(1)] have m: "markers tx2 = markers d" by simp
  then have "select_markers tx2 flightID = select_markers d flightID"
    by (simp add: select_markers_def)
  with insert_markers_default_props
    [of new "map (\<lambda>m. (m_time m, m_label m)) (select_markers tx2 flightID)" tx2] s(3) m
  show ?thesis by auto
qed

theorem C10_duplicated_markers_regular_witness:
  "\<exists>d' ms. duplicateFlight 1 ''F2'' example_db = (d', Inr 2)
     \<and> markers d' = markers example_db @ ms
     \<and> map (\<lambda>m. (m_time m, m_label m)) ms = [(10, ''Trim Start''), (25, ''turn''), (40, ''Trim End'')]
     \<and> (\<forall>m \<in> set ms. m_type m = ''regular'')
     \<and> map m_type (markers example_db) = [''trim_start'', ''regular'', ''trim_end'']"
proof -
  have res: "duplicateFlight 1 ''F2'' example_db = (fst (duplicateFlight 1 ''F2'' example_db), Inr 2)"
    using example_db_duplicate by (simp add: prod_eq_iff)
  from C10_duplicated_markers_regular [OF res]
  obtain ms where "markers (fst (duplicateFlight 1 ''F2'' example_db)) = markers example_db @ ms"
    "map (\<lambda>m. (m_time m, m_label m)) ms
       = map (\<lambda>m. (m_time m, m_label m)) (select_markers example_db 1)"
    "\<forall>m \<in> set ms. m_flight_id m = 2 \<and> m_type m = ''regular''"
    by blast
  moreover have "map m_type (markers example_db) = [''trim_start'', ''regular'', ''trim_end'']"
    by (simp add: example_db_def)
  ultimately show ?thesis
    using res by (intro exI [of _ "fst (duplicateFlight 1 ''F2'' example_db)"] exI [of _ ms])
      (simp add: example_db_markers)
qed

subsection \<open>C6: delete\<close>

text \<open>
  C6: deleting an existing flight F (row ids are positive) succeeds and leaves exactly the
  rows that do not belong to F: the flight row of F, the aircraft of F, the markers of F
  and, in each of the eight per-aircraft tables, the rows of the aircraft of F are gone,
  every other row stays. The statements run in the order rows of the aircraft, markers,
  aircraft, flight, inside one transaction. Deleting an id that no flight has changes
  nothing: \<open>DeleteFlight\<close> returns the not-found error for a positive id (ids that are
  not positive are refused as invalid before anything is read), and the handler answers
  404 for every such id.
\<close>

theorem C6_delete_cascade:
  "(0 < flightID \<and> flightID \<in> f_id ` set (flight d) \<longrightarrow>
      (\<exists>d'. DeleteFlight flightID d = (d', Inr ())
         \<and> handleDeleteFlight DELETE flightID d = (d', HttpOK ())
         \<and> flight d' = filter (\<lambda>f. f_id f \<noteq> flightID) (flight d)
         \<and> aircraft d' = filter (\<lambda>a. a_flight_id a \<noteq> flightID) (aircraft d)
         \<and> markers d' = filter (\<lambda>m. m_flight_id m \<noteq> flightID) (markers d)
         \<and> (\<forall>t. telemetry d' t
               = filter (\<lambda>r. t_aircraft_id r \<notin> a_id ` set (select_aircraft d flightID))
                   (telemetry d t))))
   \<and> (flightID \<notin> f_id ` set (flight d) \<longrightarrow>
        DeleteFlight flightID d
          = (d, Inl (if 0 < flightID then ErrFlightNotFound else ErrInvalidFlightID))
        \<and> handleDeleteFlight DELETE flightID d = (d, HttpError 404))"
proof (intro conjI impI)
  assume a: "0 < flightID \<and> flightID \<in> f_id ` set (flight d)"
  then have ne: "filter (\<lambda>f. f_id f = flightID) (flight d) \<noteq> []"
    by (auto simp: filter_empty_conv)
  let ?ids = "getAircraftIDsForFlight d flightID"
  let ?tx1 = "fold deleteAircraftData ?ids d"
  let ?d' = "?tx1\<lparr>markers := filter (\<lambda>m. m_flight_id m \<noteq> flightID) (markers ?tx1),
                  aircraft := filter (\<lambda>a. a_flight_id a \<noteq> flightID) (aircraft ?tx1),
                  flight := filter (\<lambda>f. f_id f \<noteq> flightID) (flight ?tx1)\<rparr>"
  note fd = fold_deleteAircraftData [of ?ids d]
  have del: "DeleteFlight flightID d = (?d', Inr ())"
    using a ne fd by (simp add: DeleteFlight_def Begin_def Commit_def Let_def)
  from ne obtain f rest where "filter (\<lambda>f. f_id f = flightID) (flight d) = f # rest"
    by (cases "filter (\<lambda>f. f_id f = flightID) (flight d)") auto
  then have "getFlightByIDFromMainDB flightID d = Inr f"
    by (simp add: getFlightByIDFromMainDB_def)
  with del have h: "handleDeleteFlight DELETE flightID d = (?d', HttpOK ())"
    by (simp add: handleDeleteFlight_def)
  have tel: "\<forall>t. telemetry ?d' t
               = filter (\<lambda>r. t_aircraft_id r \<notin> a_id ` set (select_aircraft d flightID))
                   (telemetry d t)"
    using fd by (simp add: getAircraftIDsForFlight_def)
  from del h tel fd show "\<exists>d'. DeleteFlight flightID d = (d', Inr ())
         \<and> handleDeleteFlight DELETE flightID d = (d', HttpOK ())
         \<and> flight d' = filter (\<lambda>f. f_id f \<noteq> flightID) (flight d)
         \<and> aircraft d' = filter (\<lambda>a. a_flight_id a \<noteq> flightID) (aircraft d)
         \<and> markers d' = filter (\<lambda>m. m_flight_id m \<noteq> flightID) (markers d)
         \<and> (\<forall>t. telemetry d' t
               = filter (\<lambda>r. t_aircraft_id r \<notin> a_id ` set (select_aircraft d flightID))
                   (telemetry d t))"
    by (intro exI [of _ ?d']) simp
next
  assume a: "flightID \<notin> f_id ` set (flight d)"
  then have e: "filter (\<lambda>f. f_id f = flightID) (flight d) = []"
    by (auto simp: filter_empty_conv)
  note fd = fold_deleteAircraftData [of "getAircraftIDsForFlight d flightID" d]
  show "DeleteFlight flightID d
          = (d, Inl (if 0 < flightID then ErrFlightNotFound else ErrInvalidFlightID))"
    using e fd by (simp add: DeleteFlight_def Begin_def Rollback_def Let_def)
  show "handleDeleteFlight DELETE flightID d = (d, HttpError 404)"
    using e by (simp add: handleDeleteFlight_def getFlightByIDFromMainDB_def)
qed

theorem C6_delete_cascade_witness:
  "(\<exists>d'. DeleteFlight 1 example_db = (d', Inr ()) \<and> flight d' = [] \<and> aircraft d' = []
        \<and> markers d' = [] \<and> (\<forall>t. telemetry d' t = []))
   \<and> DeleteFlight 7 example_db = (example_db, Inl ErrFlightNotFound)
   \<and> handleDeleteFlight DELETE 7 example_db = (example_db, HttpError 404)"
proof -
  have ex: "(0::int) < 1 \<and> 1 \<in> f_id ` set (flight example_db)"
    by (simp add: example_db_def example_flight_def)
  have nex: "7 \<notin> f_id ` set (flight example_db)"
    by (simp add: example_db_def example_flight_def)
  have tel: "filter (\<lambda>r. t_aircraft_id r \<notin> a_id ` set (select_aircraft example_db 1))
               (telemetry example_db t) = []" for t
    by (cases t) (simp_all add: example_db_aircraft filter_empty_conv, simp_all add: example_db_def)
  from C6_delete_cascade [of 1 example_db] ex tel
  have "\<exists>d'. DeleteFlight 1 example_db = (d', Inr ()) \<and> flight d' = [] \<and> aircraft d' = []
        \<and> markers d' = [] \<and> (\<forall>t. telemetry d' t = [])"
    by (auto simp: example_db_def example_flight_def)
  with C6_delete_cascade [of 7 example_db] nex show ?thesis by simp
qed

subsection \<open>C1: the import is all or nothing\<close>

text \<open>
  C1: every write of an import of a foreign database goes through the one transaction
  that \<open>ImportFlightsFromDatabase\<close> begins. If the import returns an error, whichever
  write it came from, the store is the one before the call: no new flight, no new
  aircraft, no new row. If it returns the imported flights, nothing was left out: there is
  one new flight for each flight of the source, one new aircraft for each aircraft of
  those flights, and one new row for each of their position, attitude and engine rows.
\<close>

theorem C1_import_atomic:
  "(ImportFlightsFromDatabase sourceDB d = (d', Inl err) \<longrightarrow> d' = d)
   \<and> (ImportFlightsFromDatabase sourceDB d = (d', Inr flights) \<longrightarrow>
        map SourceID flights
          = map f_id (rev (sort_key f_start_zulu_sim_time (flight (src sourceDB))))
        \<and> length (flight d') = length (flight d) + length (flight (src sourceDB))
        \<and> length (aircraft d')
           = length (aircraft d)
             + (\<Sum>f\<leftarrow>flights. length (select_aircraft (src sourceDB) (SourceID f)))
        \<and> (\<forall>t \<in> {Position, Attitude, Engine}.
              length (telemetry d' t)
              = length (telemetry d t)
                + (\<Sum>f\<leftarrow>flights. \<Sum>a\<leftarrow>select_aircraft (src sourceDB) (SourceID f).
                     length (rows_of t (src sourceDB) (a_id a)))))"
proof (rule conjI; rule impI)
  assume "ImportFlightsFromDatabase sourceDB d = (d', Inl err)"
  then show "d' = d"
    by (auto simp: ImportFlightsFromDatabase_def Begin_def Rollback_def Commit_def Let_def
        split: sum.splits prod.splits)
next
  assume "ImportFlightsFromDatabase sourceDB d = (d', Inr flights)"
  then obtain tx1 where
    s: "importFlights sourceDB d = Inr (tx1, flights)"
      "importAircraftForFlights sourceDB flights tx1 = Inr d'"
    by (auto simp: ImportFlightsFromDatabase_def Begin_def Rollback_def Commit_def Let_def
        split: sum.splits prod.splits)
  from s(1) have 1: "length (flight tx1) = length (flight d) + length (flight (src sourceDB))
     \<and> aircraft tx1 = aircraft d \<and> telemetry tx1 = telemetry d
     \<and> map SourceID flights
        = map f_id (rev (sort_key f_start_zulu_sim_time (flight (src sourceDB))))"
    unfolding importFlights_def using importFlightsLoop_Inr by fastforce
  from importAircraftForFlights_Inr [OF s(2)] 1
  show "map SourceID flights
          = map f_id (rev (sort_key f_start_zulu_sim_time (flight (src sourceDB))))
        \<and> length (flight d') = length (flight d) + length (flight (src sourceDB))
        \<and> length (aircraft d')
           = length (aircraft d)
             + (\<Sum>f\<leftarrow>flights. length (select_aircraft (src sourceDB) (SourceID f)))
        \<and> (\<forall>t \<in> {Position, Attitude, Engine}.
              length (telemetry d' t)
              = length (telemetry d t)
                + (\<Sum>f\<leftarrow>flights. \<Sum>a\<leftarrow>select_aircraft (src sourceDB) (SourceID f).
                     length (rows_of t (src sourceDB) (a_id a))))"
    by simp
qed

theorem C1_import_atomic_witness:
  "ImportFlightsFromDatabase example_source example_db = (example_db, Inl ErrUnique)
   \<and> (\<exists>d' flights. ImportFlightsFromDatabase example_source_ok example_db = (d', Inr flights)
         \<and> map SourceID flights = [10, 11]
         \<and> length (flight d') = length (flight example_db) + 2
         \<and> length (aircraft d') = length (aircraft example_db) + 4)"
proof -
  let ?bad = "ImportFlightsFromDatabase example_source example_db"
  let ?good = "ImportFlightsFromDatabase example_source_ok example_db"
  have "?bad = (fst ?bad, Inl ErrUnique)"
    using example_source_import by (simp add: prod_eq_iff)
  with C1_import_atomic [of example_source example_db "fst ?bad" ErrUnique]
  have bad: "?bad = (example_db, Inl ErrUnique)" by simp
  from example_source_ok_import obtain flights where
    fl: "snd ?good = Inr flights" "map SourceID flights = [10, 11]"
    by (cases "snd ?good") (auto simp: comp_def)
  then have good: "?good = (fst ?good, Inr flights)" by (simp add: prod_eq_iff)
  have cnt: "(\<Sum>f\<leftarrow>flights. length (select_aircraft (src example_source_ok) (SourceID f))) = 4"
  proof -
    have "(\<Sum>f\<leftarrow>flights. length (select_aircraft (src example_source_ok) (SourceID f)))
          = (\<Sum>i\<leftarrow>map SourceID flights. length (select_aircraft (src example_source_ok) i))"
      by (simp add: comp_def)
    also have "\<dots> = 4"
      unfolding fl(2) by code_simp
    finally show ?thesis .
  qed
  have "length (flight (src example_source_ok)) = 2" by code_simp
  with C1_import_atomic [of example_source_ok example_db "fst ?good" _ flights] good cnt
  have lens: "length (flight (fst ?good)) = length (flight example_db) + 2"
    "length (aircraft (fst ?good)) = length (aircraft example_db) + 4"
    by simp_all
  show ?thesis
  proof (rule conjI [OF bad], intro exI conjI)
    show "?good = (fst ?good, Inr flights)" by (rule good)
    show "map SourceID flights = [10, 11]" by (rule fl(2))
    show "length (flight (fst ?good)) = length (flight example_db) + 2" by (rule lens(1))
    show "length (aircraft (fst ?good)) = length (aircraft example_db) + 4" by (rule lens(2))
  qed
qed

subsection \<open>C2: the position series of a trim from 10 to 40 seconds\<close>

text \<open>
  C2 does not hold of the code for every flight whose position series covers the offsets 0
  to 100 seconds. \<open>trimFlight\<close> trims the attitude and the engine series of each aircraft
  as well, and each of the three functions first reads \<open>MIN(timestamp)\<close> of its series
  into an \<open>int64\<close>. Over a series without rows the minimum is \<open>NULL\<close> and the read
  fails; the test \<open>err != sql.ErrNoRows\<close>, written to let an empty series pass, never
  applies to an aggregate. The flight below has eleven position rows ten seconds apart and
  no attitude row: the trim returns the error and no flight is made. Where every aircraft
  has rows in all three series, the claim holds (lemma \<open>trimFlight_position_window\<close>).
\<close>

theorem C2_trim_fails_without_attitude_rows:
  "trimFlight 1 ''cut'' 10 40 position_only_db = (position_only_db, Inl ErrScanNull)
   \<and> map timestamp (select_series Position position_only_db 1)
     = [1000, 11000, 21000, 31000, 41000, 51000, 61000, 71000, 81000, 91000, 101000]
   \<and> select_series Attitude position_only_db 1 = []"
proof -
  let ?r = "trimFlight 1 ''cut'' 10 40 position_only_db"
  have "?r = (fst ?r, Inl ErrScanNull)"
    using position_only_db_trim by (simp add: prod_eq_iff)
  with trimFlight_Inl [of 1 "''cut''" 10 40 position_only_db "fst ?r" ErrScanNull]
  have "?r = (position_only_db, Inl ErrScanNull)" by simp
  moreover have "map timestamp (select_series Position position_only_db 1)
     = [1000, 11000, 21000, 31000, 41000, 51000, 61000, 71000, 81000, 91000, 101000]"
    by code_simp
  moreover have "select_series Attitude position_only_db 1 = []"
    by code_simp
  ultimately show ?thesis by simp
qed

subsection \<open>C5: every series is trimmed on its own time base\<close>




end
